theory Spec2Isabelle
  imports Main "HOL-Library.Word"
begin

section \<open>Strings as the source uses them\<close>

text \<open>
  A \<^verbatim>\<open>std::string\<close> is a list of bytes. Positions are \<^verbatim>\<open>size_t\<close> values; the
  search functions return \<^verbatim>\<open>std::string::npos\<close> when nothing is found, which is
  \<open>None\<close> here.
\<close>

definition LF :: char where
  "LF = CHR 0x0A"

definition CR :: char where
  "CR = CHR 0x0D"

definition NUL :: char where
  "NUL = CHR 0x00"

text \<open>The argument \<^verbatim>\<open>"\r\n"\<close> of the two character searches.\<close>

definition eols :: string where
  "eols = [CR, LF]"

datatype exn =
    runtime_error string
  | assertion_failed string
  | out_of_range
  | filesystem_error
  | undefined_behaviour

text \<open>\<^verbatim>\<open>s.find(tok, pos)\<close>: the lowest index at or after \<open>pos\<close> where \<open>tok\<close> starts.\<close>

fun find_aux :: "string \<Rightarrow> string \<Rightarrow> nat \<Rightarrow> nat option" where
  "find_aux tok [] i = (if tok = [] then Some i else None)"
| "find_aux tok (c # cs) i =
     (if take (length tok) (c # cs) = tok then Some i else find_aux tok cs (Suc i))"

definition str_find :: "string \<Rightarrow> string \<Rightarrow> nat \<Rightarrow> nat option" where
  "str_find s tok pos = (if length s < pos then None else find_aux tok (drop pos s) pos)"

text \<open>
  \<^verbatim>\<open>s.find_first_of(chars, pos)\<close> and \<^verbatim>\<open>s.find_first_not_of(chars, pos)\<close>: the lowest
  index at or after \<open>pos\<close> whose character is (is not) one of \<open>chars\<close>.
\<close>

fun first_where :: "(char \<Rightarrow> bool) \<Rightarrow> string \<Rightarrow> nat \<Rightarrow> nat option" where
  "first_where P [] i = None"
| "first_where P (c # cs) i = (if P c then Some i else first_where P cs (Suc i))"

definition find_first_of :: "string \<Rightarrow> string \<Rightarrow> nat \<Rightarrow> nat option" where
  "find_first_of s chars pos = first_where (\<lambda>c. c \<in> set chars) (drop pos s) pos"

definition find_first_not_of :: "string \<Rightarrow> string \<Rightarrow> nat \<Rightarrow> nat option" where
  "find_first_not_of s chars pos = first_where (\<lambda>c. c \<notin> set chars) (drop pos s) pos"

text \<open>
  \<^verbatim>\<open>s.substr(pos, count)\<close> throws \<^verbatim>\<open>std::out_of_range\<close> when \<open>pos\<close> is past the end and
  otherwise returns at most \<open>count\<close> characters; \<^verbatim>\<open>s.substr(pos)\<close> returns the rest.
\<close>

definition substr :: "string \<Rightarrow> nat \<Rightarrow> nat \<Rightarrow> exn + string" where
  "substr s pos count = (if length s < pos then Inl out_of_range else Inr (take count (drop pos s)))"

definition substr_from :: "string \<Rightarrow> nat \<Rightarrow> exn + string" where
  "substr_from s pos = (if length s < pos then Inl out_of_range else Inr (drop pos s))"

text \<open>Subtraction of two \<^verbatim>\<open>size_t\<close> values (64 bits): it wraps when \<open>b\<close> exceeds \<open>a\<close>.\<close>

definition size_sub :: "nat \<Rightarrow> nat \<Rightarrow> nat" where
  "size_sub a b = (if b \<le> a then a - b else 2 ^ 64 - (b - a))"

section \<open>The shader source splitter\<close>

text \<open>
  The enumeration \<^verbatim>\<open>ShaderType\<close>; its enumerator \<^verbatim>\<open>None\<close> is \<open>ShaderNone\<close> here.
\<close>

datatype ShaderType =
  ShaderNone | Vertex | Fragment | Geometry | TessControl | TessEvaluation | Compute

definition types :: "(string \<times> ShaderType) list" where
  "types =
     [(''vertex'', Vertex),
      (''fragment'', Fragment),
      (''pixel'', Fragment),
      (''geometry'', Geometry),
      (''tessControl'', TessControl),
      (''tessEvaluation'', TessEvaluation),
      (''compute'', Compute)]"

definition GetShaderTypeFromString :: "string \<Rightarrow> ShaderType" where
  "GetShaderTypeFromString type =
     (case map_of types type of Some t \<Rightarrow> t | None \<Rightarrow> ShaderNone)"

definition token :: string where
  "token = ''#type''"

text \<open>
  One pass through the body of the \<^verbatim>\<open>while\<close> loop of \<^verbatim>\<open>ParseShader\<close>, entered with
  \<open>position\<close> different from \<^verbatim>\<open>npos\<close>. It returns the next value of \<open>position\<close> and the
  updated map, or the failure of one of the three assertions.
\<close>

definition ParseShader_body ::
  "string \<Rightarrow> nat \<Rightarrow> (ShaderType \<rightharpoonup> string) \<Rightarrow> exn + (nat option \<times> (ShaderType \<rightharpoonup> string))" where
  "ParseShader_body shaderSource position result =
     (let eol = find_first_of shaderSource eols position;
          begin = position + length token + 1
      in case eol of
           None \<Rightarrow> Inl (assertion_failed ''eol != std::string::npos'')
         | Some eol \<Rightarrow>
            (case substr shaderSource begin (size_sub eol begin) of
               Inl e \<Rightarrow> Inl e
             | Inr type \<Rightarrow>
                (let shaderType = GetShaderTypeFromString type
                 in if shaderType = ShaderNone
                    then Inl (assertion_failed ''shaderType != ShaderType::None'')
                    else
                      (case find_first_not_of shaderSource eols eol of
                         None \<Rightarrow> Inl (assertion_failed ''nextLinePosition != std::string::npos'')
                       | Some nextLinePosition \<Rightarrow>
                          (let position' = str_find shaderSource token nextLinePosition
                           in case (case position' of
                                      None \<Rightarrow> substr_from shaderSource nextLinePosition
                                    | Some p \<Rightarrow>
                                        substr shaderSource nextLinePosition
                                          (size_sub p nextLinePosition)) of
                                Inl e \<Rightarrow> Inl e
                              | Inr text \<Rightarrow> Inr (position', result(shaderType \<mapsto> text)))))))"

lemma first_where_bounds:
  "first_where P cs i = Some k \<Longrightarrow> i \<le> k \<and> k < i + length cs \<and> P (cs ! (k - i))"
proof (induction cs arbitrary: i)
  case Nil
  then show ?case by simp
next
  case (Cons c cs)
  show ?case
  proof (cases "P c")
    case True
    with Cons.prems show ?thesis by simp
  next
    case False
    with Cons.prems have "first_where P cs (Suc i) = Some k" by simp
    from Cons.IH [OF this] have ih: "Suc i \<le> k" "k < Suc i + length cs" "P (cs ! (k - Suc i))"
      by auto
    from ih(1) have "k - i = Suc (k - Suc i)" by arith
    with ih show ?thesis by simp
  qed
qed

lemma find_aux_bounds:
  "find_aux tok cs i = Some k \<Longrightarrow> i \<le> k \<and> k + length tok \<le> i + length cs"
proof (induction cs arbitrary: i)
  case Nil
  then show ?case by (simp split: if_splits)
next
  case (Cons c cs)
  show ?case
  proof (cases "take (length tok) (c # cs) = tok")
    case True
    then have "length (take (length tok) (c # cs)) = length tok" by simp
    then have "length tok \<le> length (c # cs)" by (simp only: length_take)
    with True Cons.prems show ?thesis by simp
  next
    case False
    with Cons.prems have "find_aux tok cs (Suc i) = Some k" by simp
    from Cons.IH [OF this] show ?thesis by simp
  qed
qed

lemma find_first_of_bounds:
  "find_first_of s chars pos = Some k \<Longrightarrow> pos \<le> k \<and> k < length s \<and> s ! k \<in> set chars"
  unfolding find_first_of_def
  by (drule first_where_bounds) (auto simp: nth_drop split: if_splits)

lemma find_first_not_of_bounds:
  "find_first_not_of s chars pos = Some k \<Longrightarrow> pos \<le> k \<and> k < length s \<and> s ! k \<notin> set chars"
  unfolding find_first_not_of_def
  by (drule first_where_bounds) (auto simp: nth_drop split: if_splits)

lemma str_find_bounds:
  "str_find s tok pos = Some k \<Longrightarrow> pos \<le> k \<and> k + length tok \<le> length s"
  unfolding str_find_def
  by (auto split: if_splits dest!: find_aux_bounds)

text \<open>Every pass moves \<open>position\<close> forward, so the loop ends.\<close>

lemma ParseShader_body_advances:
  assumes "ParseShader_body s p r = Inr (Some p', r')"
  shows "p < p' \<and> p' < length s"
proof -
  from assms obtain eol nlp where
    e: "find_first_of s eols p = Some eol" and
    n: "find_first_not_of s eols eol = Some nlp" and
    f: "str_find s token nlp = Some p'"
    by (auto simp: ParseShader_body_def Let_def
        split: option.splits sum.splits if_splits)
  from find_first_of_bounds [OF e] have 1: "p \<le> eol" "s ! eol \<in> set eols" by auto
  from find_first_not_of_bounds [OF n] have 2: "eol \<le> nlp" "s ! nlp \<notin> set eols" by auto
  from 1 2 have "eol \<noteq> nlp" by auto
  with 1 2 have "p < nlp" by simp
  moreover from str_find_bounds [OF f] have "nlp \<le> p'" "p' + length token \<le> length s" by auto
  ultimately show ?thesis by (simp add: token_def)
qed

function ParseShader_loop ::
  "string \<Rightarrow> nat option \<Rightarrow> (ShaderType \<rightharpoonup> string) \<Rightarrow> exn + (ShaderType \<rightharpoonup> string)" where
  "ParseShader_loop shaderSource None result = Inr result"
| "ParseShader_loop shaderSource (Some position) result =
     (case ParseShader_body shaderSource position result of
        Inl e \<Rightarrow> Inl e
      | Inr (position', result') \<Rightarrow> ParseShader_loop shaderSource position' result')"
  by pat_completeness auto
termination
proof (relation "measure (\<lambda>(s, position, r).
          case position of None \<Rightarrow> 0 | Some p \<Rightarrow> Suc (length s - p))")
  show "wf (measure (\<lambda>(s, position, r).
          case position of None \<Rightarrow> 0 | Some p \<Rightarrow> Suc (length s - p)))"
    by simp
next
  fix shaderSource position result x2 x y
  assume "ParseShader_body shaderSource position result = Inr x2" and "(x, y) = x2"
  then have b: "ParseShader_body shaderSource position result = Inr (x, y)" by simp
  show "((shaderSource, x, y), shaderSource, Some position, result)
        \<in> measure (\<lambda>(s, position, r).
            case position of None \<Rightarrow> 0 | Some p \<Rightarrow> Suc (length s - p))"
  proof (cases x)
    case None
    then show ?thesis by simp
  next
    case (Some p')
    with b ParseShader_body_advances [of shaderSource position result p' y]
    have "position < p'" "p' < length shaderSource" by auto
    with Some show ?thesis by simp
  qed
qed

definition ParseShader :: "string \<Rightarrow> exn + (ShaderType \<rightharpoonup> string)" where
  "ParseShader shaderSource =
     ParseShader_loop shaderSource (str_find shaderSource token 0) Map.empty"

text \<open>
  The vocabulary of the properties below. A marker stands at \<open>p\<close> when the token starts
  there. The text of its directive is what follows the token on the marker's line, and
  its stage name is that text without the space that separates it from the token, as in
  the format \<^verbatim>\<open>#type <stagename>\<close>. A name is recognized when it is a key of the lookup
  table.
\<close>

definition marker_at :: "string \<Rightarrow> nat \<Rightarrow> bool" where
  "marker_at s p = (take (length token) (drop p s) = token)"




definition recognized :: "string \<Rightarrow> bool" where
  "recognized name = (name \<in> fst ` set types)"

text \<open>
  A source text in the file format: sections, each a marker line \<^verbatim>\<open>#type <name>\<close> ended
  by a line feed and followed by its body. It is valid when every name is recognized and
  no body holds the token.
\<close>

definition section_text :: "string \<times> string \<Rightarrow> string" where
  "section_text = (\<lambda>(name, body). token @ '' '' @ name @ [LF] @ body)"

definition render :: "(string \<times> string) list \<Rightarrow> string" where
  "render secs = concat (map section_text secs)"

definition token_free :: "string \<Rightarrow> bool" where
  "token_free body = (str_find body token 0 = None)"

definition valid_source :: "(string \<times> string) list \<Rightarrow> bool" where
  "valid_source secs = list_all (\<lambda>(name, body). recognized name \<and> token_free body) secs"

definition is_eol :: "char \<Rightarrow> bool" where
  "is_eol c = (c \<in> set eols)"

section \<open>The graphics driver\<close>

text \<open>
  The driver is the collaborator behind every \<^verbatim>\<open>gl...\<close> call. It is modelled as a
  state that records each call in order (\<open>calls\<close>), keeps the objects that are alive
  and the current bindings, and answers from a fixed behaviour (the last seven fields):
  whether it grants a program or a stage object, whether a source compiles and a program
  links, the diagnostic texts, and the location of each uniform name. Object names are
  handed out from \<open>next_name\<close>; the name 0 is never an object.
\<close>

type_synonym HandleType = nat

type_synonym float = "32 word"
type_synonym vec3 = "float \<times> float \<times> float"
type_synonym vec4 = "float \<times> float \<times> float \<times> float"
type_synonym mat3 = "vec3 \<times> vec3 \<times> vec3"
type_synonym mat4 = "vec4 \<times> vec4 \<times> vec4 \<times> vec4"

datatype GLUniform =
    Uniform1i int
  | Uniform1f float
  | Uniform3f float float float
  | Uniform3fv vec3
  | Uniform4fv vec4
  | UniformMatrix3fv mat3
  | UniformMatrix4fv mat4

text \<open>
  Modelled from the spec: the usage hint of a buffer, "static vs dynamic upload pattern".
  The header that declares \<^verbatim>\<open>BufferUsage\<close> is not among the sources.
\<close>

datatype BufferUsage = Static | Dynamic

datatype GLCall =
    CreateProgram
  | CreateShader ShaderType
  | ShaderSource HandleType string
  | CompileShader HandleType
  | GetShaderiv_COMPILE_STATUS HandleType
  | GetShaderiv_INFO_LOG_LENGTH HandleType
  | GetShaderInfoLog HandleType nat
  | DeleteShader HandleType
  | AttachShader HandleType HandleType
  | LinkProgram HandleType
  | GetProgramiv_ATTACHED_SHADERS HandleType
  | GetAttachedShaders HandleType nat
  | GetProgramiv_LINK_STATUS HandleType
  | ValidateProgram HandleType
  | DetachShader HandleType HandleType
  | GetProgramiv_INFO_LOG_LENGTH HandleType
  | GetProgramInfoLog HandleType nat
  | DeleteProgram HandleType
  | UseProgram HandleType
  | BindAttribLocation HandleType nat string
  | BindFragDataLocation HandleType nat string
  | GetUniformLocation' HandleType string
  | Uniform int GLUniform
  | GenBuffers
  | BindBuffer_ELEMENT_ARRAY HandleType
  | BufferData_ELEMENT_ARRAY int "32 word list" BufferUsage
  | DeleteBuffers HandleType
  | BindVertexArray HandleType
  | DrawElements nat

record ShaderObject =
  so_type :: ShaderType
  so_source :: string
  so_compiled :: bool

record ProgramObject =
  po_linked :: bool
  po_log :: string

record GL =
  calls :: "GLCall list"
  next_name :: nat
  shader_objects :: "HandleType \<rightharpoonup> ShaderObject"
  program_objects :: "HandleType \<rightharpoonup> ProgramObject"
  attachments :: "(HandleType \<times> HandleType) list"
  current_program :: HandleType
  element_array_buffer :: HandleType
  buffer_objects :: "HandleType \<rightharpoonup> int \<times> 32 word list \<times> BufferUsage"
  uniform_values :: "HandleType \<times> int \<rightharpoonup> GLUniform"
  grants_program :: bool
  grants_shader :: "ShaderType \<Rightarrow> bool"
  compiles :: "ShaderType \<Rightarrow> string \<Rightarrow> bool"
  compile_log :: "ShaderType \<Rightarrow> string \<Rightarrow> string"
  links :: "HandleType \<Rightarrow> bool"
  link_log :: "HandleType \<Rightarrow> string"
  uniform_location :: "HandleType \<Rightarrow> string \<Rightarrow> int"

definition called :: "GLCall \<Rightarrow> GL \<Rightarrow> GL" where
  "called c g = g\<lparr>calls := calls g @ [c]\<rparr>"

text \<open>The shader objects attached to a program, in the order of attachment.\<close>

definition attached :: "GL \<Rightarrow> HandleType \<Rightarrow> HandleType list" where
  "attached g p = map snd (filter (\<lambda>a. fst a = p) (attachments g))"

text \<open>
  What the driver writes for an information log \<open>text\<close> into a buffer of \<open>bufSize\<close>
  characters that the caller filled with zeros: the text cut to fit, then zeros.
\<close>

definition write_log :: "string \<Rightarrow> nat \<Rightarrow> string" where
  "write_log text bufSize =
     (let t = take (bufSize - 1) text in t @ replicate (bufSize - length t) NUL)"

text \<open>\<^verbatim>\<open>GL_INFO_LOG_LENGTH\<close>: the length with the terminating zero, 0 when there is no log.\<close>

definition info_log_length :: "string \<Rightarrow> nat" where
  "info_log_length text = (if text = [] then 0 else length text + 1)"

definition glCreateProgram :: "GL \<Rightarrow> HandleType \<times> GL" where
  "glCreateProgram g =
     (let g1 = called CreateProgram g
      in if grants_program g \<and> next_name g \<noteq> 0
         then (next_name g,
               g1\<lparr>next_name := next_name g + 1,
                   program_objects := (program_objects g)(next_name g \<mapsto>
                     \<lparr>po_linked = False, po_log = []\<rparr>)\<rparr>)
         else (0, g1))"

definition glCreateShader :: "ShaderType \<Rightarrow> GL \<Rightarrow> HandleType \<times> GL" where
  "glCreateShader type g =
     (let g1 = called (CreateShader type) g
      in if grants_shader g type \<and> next_name g \<noteq> 0
         then (next_name g,
               g1\<lparr>next_name := next_name g + 1,
                   shader_objects := (shader_objects g)(next_name g \<mapsto>
                     \<lparr>so_type = type, so_source = [], so_compiled = False\<rparr>)\<rparr>)
         else (0, g1))"

definition glShaderSource :: "HandleType \<Rightarrow> string \<Rightarrow> GL \<Rightarrow> GL" where
  "glShaderSource h source g =
     (let g1 = called (ShaderSource h source) g
      in case shader_objects g h of
           None \<Rightarrow> g1
         | Some so \<Rightarrow> g1\<lparr>shader_objects := (shader_objects g)(h \<mapsto> so\<lparr>so_source := source\<rparr>)\<rparr>)"

definition glCompileShader :: "HandleType \<Rightarrow> GL \<Rightarrow> GL" where
  "glCompileShader h g =
     (let g1 = called (CompileShader h) g
      in case shader_objects g h of
           None \<Rightarrow> g1
         | Some so \<Rightarrow>
             g1\<lparr>shader_objects := (shader_objects g)(h \<mapsto>
                  so\<lparr>so_compiled := compiles g (so_type so) (so_source so)\<rparr>)\<rparr>)"

text \<open>
  A query writes its answer through a pointer and leaves the variable alone when the
  name is not an object: the answer is \<open>None\<close> then.
\<close>

definition glGetShaderiv_COMPILE_STATUS :: "HandleType \<Rightarrow> GL \<Rightarrow> bool option \<times> GL" where
  "glGetShaderiv_COMPILE_STATUS h g =
     (map_option so_compiled (shader_objects g h), called (GetShaderiv_COMPILE_STATUS h) g)"

definition shader_log :: "GL \<Rightarrow> ShaderObject \<Rightarrow> string" where
  "shader_log g so = (if so_compiled so then [] else compile_log g (so_type so) (so_source so))"

definition glGetShaderiv_INFO_LOG_LENGTH :: "HandleType \<Rightarrow> GL \<Rightarrow> nat option \<times> GL" where
  "glGetShaderiv_INFO_LOG_LENGTH h g =
     (map_option (\<lambda>so. info_log_length (shader_log g so)) (shader_objects g h),
      called (GetShaderiv_INFO_LOG_LENGTH h) g)"

definition glGetShaderInfoLog :: "HandleType \<Rightarrow> nat \<Rightarrow> string \<Rightarrow> GL \<Rightarrow> string \<times> GL" where
  "glGetShaderInfoLog h bufSize buffer g =
     (case shader_objects g h of
        None \<Rightarrow> buffer
      | Some so \<Rightarrow> write_log (shader_log g so) bufSize,
      called (GetShaderInfoLog h bufSize) g)"

text \<open>
  Deleting a shader object that is still attached to a program only marks it; no path of
  the code does that, and the mark is not modelled: the object stays.
\<close>

definition glDeleteShader :: "HandleType \<Rightarrow> GL \<Rightarrow> GL" where
  "glDeleteShader h g =
     (let g1 = called (DeleteShader h) g
      in if h \<in> snd ` set (attachments g) then g1
         else g1\<lparr>shader_objects := (shader_objects g)(h := None)\<rparr>)"

definition glAttachShader :: "HandleType \<Rightarrow> HandleType \<Rightarrow> GL \<Rightarrow> GL" where
  "glAttachShader p h g =
     (let g1 = called (AttachShader p h) g
      in if program_objects g p \<noteq> None \<and> shader_objects g h \<noteq> None
            \<and> (p, h) \<notin> set (attachments g)
         then g1\<lparr>attachments := attachments g @ [(p, h)]\<rparr>
         else g1)"

definition glDetachShader :: "HandleType \<Rightarrow> HandleType \<Rightarrow> GL \<Rightarrow> GL" where
  "glDetachShader p h g =
     (called (DetachShader p h) g)\<lparr>attachments := removeAll (p, h) (attachments g)\<rparr>"

definition glLinkProgram :: "HandleType \<Rightarrow> GL \<Rightarrow> GL" where
  "glLinkProgram p g =
     (let g1 = called (LinkProgram p) g
      in case program_objects g p of
           None \<Rightarrow> g1
         | Some po \<Rightarrow>
             g1\<lparr>program_objects := (program_objects g)(p \<mapsto>
                  \<lparr>po_linked = links g p,
                   po_log = (if links g p then [] else link_log g p)\<rparr>)\<rparr>)"

definition glGetProgramiv_ATTACHED_SHADERS :: "HandleType \<Rightarrow> GL \<Rightarrow> nat option \<times> GL" where
  "glGetProgramiv_ATTACHED_SHADERS p g =
     (map_option (\<lambda>po. length (attached g p)) (program_objects g p),
      called (GetProgramiv_ATTACHED_SHADERS p) g)"

text \<open>
  \<^verbatim>\<open>glGetAttachedShaders(p, maxCount, nullptr, buffer)\<close> overwrites the front of the
  caller's \<open>buffer\<close> with at most \<open>maxCount\<close> attached names.
\<close>

definition glGetAttachedShaders ::
  "HandleType \<Rightarrow> nat \<Rightarrow> HandleType list \<Rightarrow> GL \<Rightarrow> HandleType list \<times> GL" where
  "glGetAttachedShaders p maxCount buffer g =
     (case program_objects g p of
        None \<Rightarrow> buffer
      | Some po \<Rightarrow>
          (let names = take maxCount (attached g p) in names @ drop (length names) buffer),
      called (GetAttachedShaders p maxCount) g)"

definition glGetProgramiv_LINK_STATUS :: "HandleType \<Rightarrow> GL \<Rightarrow> bool option \<times> GL" where
  "glGetProgramiv_LINK_STATUS p g =
     (map_option po_linked (program_objects g p), called (GetProgramiv_LINK_STATUS p) g)"

definition glGetProgramiv_INFO_LOG_LENGTH :: "HandleType \<Rightarrow> GL \<Rightarrow> nat option \<times> GL" where
  "glGetProgramiv_INFO_LOG_LENGTH p g =
     (map_option (\<lambda>po. info_log_length (po_log po)) (program_objects g p),
      called (GetProgramiv_INFO_LOG_LENGTH p) g)"

definition glGetProgramInfoLog :: "HandleType \<Rightarrow> nat \<Rightarrow> string \<Rightarrow> GL \<Rightarrow> string \<times> GL" where
  "glGetProgramInfoLog p bufSize buffer g =
     (case program_objects g p of
        None \<Rightarrow> buffer
      | Some po \<Rightarrow> write_log (po_log po) bufSize,
      called (GetProgramInfoLog p bufSize) g)"

definition glValidateProgram :: "HandleType \<Rightarrow> GL \<Rightarrow> GL" where
  "glValidateProgram p g = called (ValidateProgram p) g"

text \<open>Deleting a program detaches its shader objects.\<close>

definition glDeleteProgram :: "HandleType \<Rightarrow> GL \<Rightarrow> GL" where
  "glDeleteProgram p g =
     (let g1 = called (DeleteProgram p) g
      in if p = 0 \<or> program_objects g p = None then g1
         else g1\<lparr>program_objects := (program_objects g)(p := None),
                 attachments := filter (\<lambda>a. fst a \<noteq> p) (attachments g)\<rparr>)"

definition glUseProgram :: "HandleType \<Rightarrow> GL \<Rightarrow> GL" where
  "glUseProgram p g =
     (let g1 = called (UseProgram p) g
      in if p = 0 \<or> (case program_objects g p of None \<Rightarrow> False | Some po \<Rightarrow> po_linked po)
         then g1\<lparr>current_program := p\<rparr>
         else g1)"

definition glBindAttribLocation :: "HandleType \<Rightarrow> nat \<Rightarrow> string \<Rightarrow> GL \<Rightarrow> GL" where
  "glBindAttribLocation p location name g = called (BindAttribLocation p location name) g"

definition glBindFragDataLocation :: "HandleType \<Rightarrow> nat \<Rightarrow> string \<Rightarrow> GL \<Rightarrow> GL" where
  "glBindFragDataLocation p location name g = called (BindFragDataLocation p location name) g"

definition glGetUniformLocation :: "HandleType \<Rightarrow> string \<Rightarrow> GL \<Rightarrow> int \<times> GL" where
  "glGetUniformLocation p name g = (uniform_location g p name, called (GetUniformLocation' p name) g)"

text \<open>
  An upload goes to the current program. The driver ignores the location -1 (and any
  upload while no program is current); every other location receives the value.
\<close>

definition glUniform :: "int \<Rightarrow> GLUniform \<Rightarrow> GL \<Rightarrow> GL" where
  "glUniform location v g =
     (let g1 = called (Uniform location v) g
      in if location = - 1 \<or> current_program g = 0 then g1
         else g1\<lparr>uniform_values := (uniform_values g)((current_program g, location) \<mapsto> v)\<rparr>)"

definition glGenBuffers :: "GL \<Rightarrow> HandleType \<times> GL" where
  "glGenBuffers g = (next_name g, (called GenBuffers g)\<lparr>next_name := next_name g + 1\<rparr>)"

definition glBindBuffer_ELEMENT_ARRAY :: "HandleType \<Rightarrow> GL \<Rightarrow> GL" where
  "glBindBuffer_ELEMENT_ARRAY h g =
     (called (BindBuffer_ELEMENT_ARRAY h) g)\<lparr>element_array_buffer := h\<rparr>"

text \<open>
  The size is a signed \<^verbatim>\<open>GLsizeiptr\<close>; the driver rejects a negative one, and a call while
  no buffer is bound, and stores nothing then.
\<close>

definition glBufferData_ELEMENT_ARRAY ::
  "int \<Rightarrow> 32 word list \<Rightarrow> BufferUsage \<Rightarrow> GL \<Rightarrow> GL" where
  "glBufferData_ELEMENT_ARRAY size' data usage g =
     (let g1 = called (BufferData_ELEMENT_ARRAY size' data usage) g
      in if element_array_buffer g = 0 \<or> size' < 0 then g1
         else g1\<lparr>buffer_objects :=
                   (buffer_objects g)(element_array_buffer g \<mapsto> (size', data, usage))\<rparr>)"

definition glDeleteBuffers :: "HandleType \<Rightarrow> GL \<Rightarrow> GL" where
  "glDeleteBuffers h g =
     (called (DeleteBuffers h) g)
       \<lparr>buffer_objects := (buffer_objects g)(h := None),
        element_array_buffer := (if element_array_buffer g = h then 0 else element_array_buffer g)\<rparr>"

section \<open>The shader program\<close>

record Shader =
  m_Handle :: HandleType
  m_IsLinked :: bool
  m_UniformLocations :: "string \<rightharpoonup> int"

text \<open>
  A method takes the object and the driver and returns both, with \<open>Inl\<close> of the
  exception when it throws. A local \<^verbatim>\<open>int\<close> that the code declares without a value and
  then reads although the driver did not write it is \<open>undefined_behaviour\<close>.
\<close>

definition Compile ::
  "ShaderType \<Rightarrow> string \<Rightarrow> Shader \<times> GL \<Rightarrow> (exn + unit) \<times> Shader \<times> GL" where
  "Compile type source = (\<lambda>(sh, gl).
     let (handle, gl1) = (if m_Handle sh = 0 then glCreateProgram gl else (m_Handle sh, gl));
         sh1 = sh\<lparr>m_Handle := handle\<rparr>
     in if handle = 0
        then (Inl (runtime_error ''Unable to create shader program!''), sh1, gl1)
        else
          let (shaderHandle, gl2) = glCreateShader type gl1
          in if shaderHandle = 0
             then (Inl (runtime_error ''Error creating shader!''), sh1, gl2)
             else
               let gl3 = glCompileShader shaderHandle (glShaderSource shaderHandle source gl2);
                   (status, gl4) = glGetShaderiv_COMPILE_STATUS shaderHandle gl3
               in case status of
                    None \<Rightarrow> (Inl undefined_behaviour, sh1, gl4)
                  | Some True \<Rightarrow> (Inr (), sh1, glAttachShader handle shaderHandle gl4)
                  | Some False \<Rightarrow>
                      (let (logLength, gl5) = glGetShaderiv_INFO_LOG_LENGTH shaderHandle gl4
                       in case logLength of
                            None \<Rightarrow> (Inl undefined_behaviour, sh1, gl5)
                          | Some logLength \<Rightarrow>
                              let log0 = replicate logLength NUL;
                                  (log1, gl6) =
                                    (if 0 < logLength
                                     then glGetShaderInfoLog shaderHandle logLength log0 gl5
                                     else (log0, gl5));
                                  log2 =
                                    (if log1 \<noteq> []
                                     then log1 @ '': shader compilation failed!''
                                     else ''Shader compilation failed!'');
                                  gl7 = glDeleteShader shaderHandle gl6
                              in (Inl (runtime_error log2), sh1, gl7)))"

text \<open>
  \<^verbatim>\<open>Compile(sources)\<close> visits the entries of the \<^verbatim>\<open>std::map\<close> in ascending order of
  the enumerators' values. The header that gives the values is not among the sources, so
  the ascending list of the enumerators is the parameter \<open>order\<close>.
\<close>

fun Compile_each ::
  "(ShaderType \<times> string) list \<Rightarrow> Shader \<times> GL \<Rightarrow> (exn + unit) \<times> Shader \<times> GL" where
  "Compile_each [] (sh, gl) = (Inr (), sh, gl)"
| "Compile_each ((type, source) # rest) (sh, gl) =
     (case Compile type source (sh, gl) of
        (Inl e, sh', gl') \<Rightarrow> (Inl e, sh', gl')
      | (Inr u, sh', gl') \<Rightarrow> Compile_each rest (sh', gl'))"

definition entries :: "ShaderType list \<Rightarrow> (ShaderType \<rightharpoonup> string) \<Rightarrow> (ShaderType \<times> string) list" where
  "entries order sources = List.map_filter (\<lambda>t. map_option (Pair t) (sources t)) order"

definition Compile_sources ::
  "ShaderType list \<Rightarrow> (ShaderType \<rightharpoonup> string) \<Rightarrow> Shader \<times> GL \<Rightarrow> (exn + unit) \<times> Shader \<times> GL" where
  "Compile_sources order sources = Compile_each (entries order sources)"

definition Link :: "Shader \<times> GL \<Rightarrow> (exn + unit) \<times> Shader \<times> GL" where
  "Link = (\<lambda>(sh, gl).
     let gl1 = glLinkProgram (m_Handle sh) gl;
         (count, gl2) = glGetProgramiv_ATTACHED_SHADERS (m_Handle sh) gl1;
         shaderCount = (case count of None \<Rightarrow> 0 | Some n \<Rightarrow> n);
         (shaderHandles, gl3) =
           glGetAttachedShaders (m_Handle sh) shaderCount (replicate shaderCount 0) gl2;
         (status, gl4) = glGetProgramiv_LINK_STATUS (m_Handle sh) gl3
     in case status of
          None \<Rightarrow> (Inl undefined_behaviour, sh, gl4)
        | Some True \<Rightarrow>
            (let gl5 = glValidateProgram (m_Handle sh) gl4;
                 sh1 = sh\<lparr>m_IsLinked := True\<rparr>;
                 gl6 = fold (\<lambda>shaderHandle g.
                         glDeleteShader shaderHandle (glDetachShader (m_Handle sh) shaderHandle g))
                       shaderHandles gl5
             in (Inr (), sh1, gl6))
        | Some False \<Rightarrow>
            (let (logLength, gl5) = glGetProgramiv_INFO_LOG_LENGTH (m_Handle sh) gl4
             in case logLength of
                  None \<Rightarrow> (Inl undefined_behaviour, sh, gl5)
                | Some logLength \<Rightarrow>
                    if 0 < logLength
                    then
                      let (log, gl6) =
                            glGetProgramInfoLog (m_Handle sh) logLength
                              (replicate logLength NUL) gl5;
                          gl7 = glDeleteProgram (m_Handle sh) gl6;
                          gl8 = fold glDeleteShader shaderHandles gl7
                      in (Inl (runtime_error log), sh, gl8)
                    else (Inr (), sh, gl5)))"

definition Bind :: "Shader \<times> GL \<Rightarrow> (exn + unit) \<times> Shader \<times> GL" where
  "Bind = (\<lambda>(sh, gl).
     if \<not> m_IsLinked sh
     then (case Link (sh, gl) of
             (Inl e, sh', gl') \<Rightarrow> (Inl e, sh', gl')
           | (Inr u, sh', gl') \<Rightarrow> (Inr (), sh', glUseProgram (m_Handle sh') gl'))
     else (Inr (), sh, glUseProgram (m_Handle sh) gl))"

definition Unbind :: "GL \<Rightarrow> GL" where
  "Unbind gl = glUseProgram 0 gl"

definition BindAttribLocation :: "nat \<Rightarrow> string \<Rightarrow> Shader \<times> GL \<Rightarrow> Shader \<times> GL" where
  "BindAttribLocation location name = (\<lambda>(sh, gl).
     if \<not> m_IsLinked sh then (sh, glBindAttribLocation (m_Handle sh) location name gl)
     else (sh, gl))"

definition BindFragDataLocation :: "nat \<Rightarrow> string \<Rightarrow> Shader \<times> GL \<Rightarrow> Shader \<times> GL" where
  "BindFragDataLocation location name = (\<lambda>(sh, gl).
     if \<not> m_IsLinked sh then (sh, glBindFragDataLocation (m_Handle sh) location name gl)
     else (sh, gl))"

text \<open>
  \<^verbatim>\<open>m_UniformLocations[name]\<close>: the \<^verbatim>\<open>operator[]\<close> of \<^verbatim>\<open>std::map\<close> returns the value
  stored under \<open>name\<close> and, when there is none, first stores the value-initialised
  \<^verbatim>\<open>int\<close>, which is 0.
\<close>

definition subscript :: "string \<Rightarrow> Shader \<Rightarrow> int \<times> Shader" where
  "subscript name sh =
     (case m_UniformLocations sh name of
        Some location \<Rightarrow> (location, sh)
      | None \<Rightarrow> (0, sh\<lparr>m_UniformLocations := (m_UniformLocations sh)(name \<mapsto> 0)\<rparr>))"

definition GetUniformLocation :: "string \<Rightarrow> Shader \<times> GL \<Rightarrow> int \<times> Shader \<times> GL" where
  "GetUniformLocation name = (\<lambda>(sh, gl).
     if m_UniformLocations sh name = None
     then
       let (location, gl1) = glGetUniformLocation (m_Handle sh) name gl
       in if 0 \<le> location
          then (location, sh\<lparr>m_UniformLocations := (m_UniformLocations sh)(name \<mapsto> location)\<rparr>, gl1)
          else (let (l, sh1) = subscript name sh in (l, sh1, gl1))
     else (let (l, sh1) = subscript name sh in (l, sh1, gl)))"

text \<open>The eight overloads of \<^verbatim>\<open>SetUniform\<close>, one per kind of argument.\<close>

datatype UniformArg =
    ArgBool bool
  | ArgInt int
  | ArgFloat float
  | ArgFloat3 float float float
  | ArgVec3 vec3
  | ArgVec4 vec4
  | ArgMat3 mat3
  | ArgMat4 mat4

fun upload :: "UniformArg \<Rightarrow> GLUniform" where
  "upload (ArgBool value) = Uniform1i (if value then 1 else 0)"
| "upload (ArgInt value) = Uniform1i value"
| "upload (ArgFloat value) = Uniform1f value"
| "upload (ArgFloat3 x y z) = Uniform3f x y z"
| "upload (ArgVec3 v) = Uniform3fv v"
| "upload (ArgVec4 v) = Uniform4fv v"
| "upload (ArgMat3 m) = UniformMatrix3fv m"
| "upload (ArgMat4 m) = UniformMatrix4fv m"

definition SetUniform :: "string \<Rightarrow> UniformArg \<Rightarrow> Shader \<times> GL \<Rightarrow> Shader \<times> GL" where
  "SetUniform name value = (\<lambda>(sh, gl).
     let (location, sh1, gl1) = GetUniformLocation name (sh, gl)
     in (sh1, glUniform location (upload value) gl1))"

text \<open>
  The file system as \<^verbatim>\<open>ReadFile\<close> sees it. A path names nothing (\<open>None\<close>), or something
  whose status cannot be read, so that \<^verbatim>\<open>std::filesystem::exists\<close> throws, or something
  that is not a regular file (a directory), so that \<^verbatim>\<open>std::filesystem::file_size\<close> throws,
  or a regular file with its content. The flag tells whether the input stream opens. The
  second component of the result is what \<^verbatim>\<open>ZIBEN_ERROR\<close> logs; a regular file whose stream
  does not open leaves the zeros of \<^verbatim>\<open>resize\<close> in the result, and a stream that opens
  delivers the whole content.
\<close>

datatype Entry =
    Unreachable
  | NotRegular bool
  | Regular bool string

definition ReadFile :: "(string \<rightharpoonup> Entry) \<Rightarrow> string \<Rightarrow> (exn + string) \<times> string list" where
  "ReadFile fs filepath =
     (case fs filepath of
        None \<Rightarrow> (Inr [], [''Can't read the file by provided path: '' @ filepath])
      | Some Unreachable \<Rightarrow> (Inl filesystem_error, [])
      | Some (NotRegular opens) \<Rightarrow>
          (Inl filesystem_error,
           if \<not> opens then [''Can't open the file by provided path: '' @ filepath] else [])
      | Some (Regular opens content) \<Rightarrow>
          if \<not> opens
          then (Inr (replicate (length content) NUL),
                [''Can't open the file by provided path: '' @ filepath])
          else (Inr content, []))"

text \<open>
  The constructor behind \<^verbatim>\<open>Shader::Create\<close>. When it throws there is no object, only
  the driver state it leaves behind.
\<close>

definition Create ::
  "ShaderType list \<Rightarrow> (string \<rightharpoonup> Entry) \<Rightarrow> string \<Rightarrow> GL \<Rightarrow> (exn + Shader) \<times> GL \<times> string list" where
  "Create order fs filepath gl =
     (let sh0 = \<lparr>m_Handle = 0, m_IsLinked = False, m_UniformLocations = Map.empty\<rparr>;
          (read, logged) = ReadFile fs filepath
      in case read of
           Inl e \<Rightarrow> (Inl e, gl, logged)
         | Inr shaderSource \<Rightarrow>
             (case ParseShader shaderSource of
                Inl e \<Rightarrow> (Inl e, gl, logged)
              | Inr shaderSources \<Rightarrow>
                  (case Compile_sources order shaderSources (sh0, gl) of
                     (Inl e, sh, gl') \<Rightarrow> (Inl e, gl', logged)
                   | (Inr u, sh, gl') \<Rightarrow> (Inr sh, gl', logged))))"

definition destroy :: "Shader \<Rightarrow> GL \<Rightarrow> GL" where
  "destroy sh gl = (if m_Handle sh = 0 then gl else glDeleteProgram (m_Handle sh) gl)"

section \<open>The index buffer\<close>

text \<open>
  The fields are \<^verbatim>\<open>m_Handle\<close>, \<^verbatim>\<open>m_Count\<close> and \<^verbatim>\<open>m_Usage\<close> in the source; the prefix
  keeps them apart from the shader's. The header that declares \<^verbatim>\<open>IndexType\<close> is not
  among the sources: an index is a 32-bit word here and \<open>sizeof_IndexType\<close>, the size of
  one index, is a parameter. The byte count is a \<^verbatim>\<open>size_t\<close> product, so it wraps, and
  the cast to \<^verbatim>\<open>GLsizeiptr\<close> reads its 64 bits as a signed number.
\<close>

record IndexBuffer =
  ib_Handle :: HandleType
  ib_Count :: nat
  ib_Usage :: BufferUsage

definition IndexBuffer_Create ::
  "nat \<Rightarrow> 32 word list \<Rightarrow> nat \<Rightarrow> BufferUsage \<Rightarrow> GL \<Rightarrow> IndexBuffer \<times> GL" where
  "IndexBuffer_Create sizeof_IndexType indices count usage gl =
     (let (handle, gl1) = glGenBuffers gl;
          this = \<lparr>ib_Handle = handle, ib_Count = count, ib_Usage = usage\<rparr>;
          gl2 = glBindBuffer_ELEMENT_ARRAY (ib_Handle this) gl1;
          gl3 = glBufferData_ELEMENT_ARRAY
                  (sint (of_nat (count * sizeof_IndexType) :: 64 word)) indices usage gl2
      in (this, gl3))"

definition IndexBuffer_Bind :: "IndexBuffer \<Rightarrow> GL \<Rightarrow> GL" where
  "IndexBuffer_Bind indexBuffer gl = glBindBuffer_ELEMENT_ARRAY (ib_Handle indexBuffer) gl"

definition IndexBuffer_Unbind :: "GL \<Rightarrow> GL" where
  "IndexBuffer_Unbind gl = glBindBuffer_ELEMENT_ARRAY 0 gl"

definition IndexBuffer_destroy :: "IndexBuffer \<Rightarrow> GL \<Rightarrow> GL" where
  "IndexBuffer_destroy indexBuffer gl = glDeleteBuffers (ib_Handle indexBuffer) gl"

section \<open>The renderer\<close>





text \<open>The static member \<^verbatim>\<open>s_ViewProjectionMatrix\<close> is the renderer's whole state.\<close>

record Renderer =
  s_ViewProjectionMatrix :: mat4


definition EndScene :: "Renderer \<Rightarrow> Renderer" where
  "EndScene r = r"


section \<open>A program's lifetime\<close>

text \<open>
  Every method of the class as one operation on the object and the driver, so that "for
  the object's lifetime" is "after any sequence of operations". An operation that throws
  leaves the state it reached.
\<close>

datatype ShaderOp =
    DoCompile ShaderType string
  | DoLink
  | DoBind
  | DoUnbind
  | DoBindAttribLocation nat string
  | DoBindFragDataLocation nat string
  | DoSetUniform string UniformArg
  | DoGetUniformLocation string

fun perform :: "ShaderOp \<Rightarrow> Shader \<times> GL \<Rightarrow> Shader \<times> GL" where
  "perform (DoCompile type source) x = snd (Compile type source x)"
| "perform DoLink x = snd (Link x)"
| "perform DoBind x = snd (Bind x)"
| "perform DoUnbind x = (fst x, Unbind (snd x))"
| "perform (DoBindAttribLocation location name) x = BindAttribLocation location name x"
| "perform (DoBindFragDataLocation location name) x = BindFragDataLocation location name x"
| "perform (DoSetUniform name value) x = SetUniform name value x"
| "perform (DoGetUniformLocation name) x = snd (GetUniformLocation name x)"

definition lifetime :: "ShaderOp list \<Rightarrow> Shader \<times> GL \<Rightarrow> Shader \<times> GL" where
  "lifetime ops x = fold perform ops x"

text \<open>The link requests the driver has received.\<close>

fun is_LinkProgram :: "GLCall \<Rightarrow> bool" where
  "is_LinkProgram (LinkProgram p) = True"
| "is_LinkProgram c = False"

definition link_requests :: "GL \<Rightarrow> nat" where
  "link_requests gl = length (filter is_LinkProgram (calls gl))"

text \<open>The loop of \<^verbatim>\<open>Link\<close> that detaches and deletes the stage objects after a success.\<close>

definition release :: "HandleType \<Rightarrow> HandleType list \<Rightarrow> GL \<Rightarrow> GL" where
  "release p hs g =
     fold (\<lambda>shaderHandle g. glDeleteShader shaderHandle (glDetachShader p shaderHandle g)) hs g"




text \<open>
  The object as the constructor's initialisers leave it. A path is unreadable when it
  names nothing or a regular file whose stream does not open: \<^verbatim>\<open>ReadFile\<close> logs an error
  and returns. A query fails when one of the two file-system queries throws.
\<close>

definition fresh_shader :: Shader where
  "fresh_shader = \<lparr>m_Handle = 0, m_IsLinked = False, m_UniformLocations = Map.empty\<rparr>"

definition unreadable :: "(string \<rightharpoonup> Entry) \<Rightarrow> string \<Rightarrow> bool" where
  "unreadable fs filepath =
     (case fs filepath of
        None \<Rightarrow> True
      | Some Unreachable \<Rightarrow> False
      | Some (NotRegular opens) \<Rightarrow> False
      | Some (Regular opens content) \<Rightarrow> \<not> opens)"

definition query_fails :: "(string \<rightharpoonup> Entry) \<Rightarrow> string \<Rightarrow> bool" where
  "query_fails fs filepath =
     (case fs filepath of
        None \<Rightarrow> False
      | Some Unreachable \<Rightarrow> True
      | Some (NotRegular opens) \<Rightarrow> True
      | Some (Regular opens content) \<Rightarrow> False)"

section \<open>Concrete runs\<close>

text \<open>
  A test double of the driver: it grants every object, rejects a source that starts with
  \<^verbatim>\<open>BAD\<close>, links or not as \<open>ok\<close> says with the log \<open>log\<close>, and knows the two uniforms of
  the renderer.
\<close>

definition test_driver :: "bool \<Rightarrow> string \<Rightarrow> GL" where
  "test_driver ok log =
     \<lparr>calls = [], next_name = 1, shader_objects = Map.empty, program_objects = Map.empty,
      attachments = [], current_program = 0, element_array_buffer = 0,
      buffer_objects = Map.empty, uniform_values = Map.empty,
      grants_program = True,
      grants_shader = (\<lambda>t. t \<noteq> ShaderNone),
      compiles = (\<lambda>t source. take 3 source \<noteq> ''BAD''),
      compile_log = (\<lambda>t source. ''syntax error''),
      links = (\<lambda>p. ok),
      link_log = (\<lambda>p. log),
      uniform_location = (\<lambda>p name.
        if name = ''u_ViewProjectionMatrix'' then 0
        else if name = ''u_Transform'' then 1 else - 1)\<rparr>"

text \<open>
  Two candidates for the ascending order of the enumerators: the order in which the
  lookup table lists them, and the order of the driver's constants for the stage kinds
  (the code casts an enumerator to the driver's constant).
\<close>

definition declaration_order :: "ShaderType list" where
  "declaration_order =
     [ShaderNone, Vertex, Fragment, Geometry, TessControl, TessEvaluation, Compute]"

definition constant_order :: "ShaderType list" where
  "constant_order =
     [ShaderNone, Fragment, Vertex, Geometry, TessEvaluation, TessControl, Compute]"

definition flat_glsl :: string where
  "flat_glsl = ''#type vertex'' @ [LF] @ ''V'' @ [LF] @ ''#type fragment'' @ [LF] @ ''F'' @ [LF]"

definition broken_glsl :: string where
  "broken_glsl = ''#type vertex'' @ [LF] @ ''V'' @ [LF] @ ''#type geometry'' @ [LF] @ ''BAD'' @ [LF]"

definition example_files :: "string \<rightharpoonup> Entry" where
  "example_files =
     [''flat.glsl'' \<mapsto> Regular True flat_glsl,
      ''broken.glsl'' \<mapsto> Regular True broken_glsl,
      ''plain.glsl'' \<mapsto> Regular True ''void main() {}'',
      ''shaders'' \<mapsto> NotRegular True]"

text \<open>The driver after the vertex stage of either file, and the program both files give.\<close>

definition after_vertex :: "bool \<Rightarrow> string \<Rightarrow> GL" where
  "after_vertex ok log =
     (test_driver ok log)
       \<lparr>calls :=
          [CreateProgram,
           CreateShader Vertex, ShaderSource 2 (''V'' @ [LF]), CompileShader 2,
           GetShaderiv_COMPILE_STATUS 2, AttachShader 1 2],
        next_name := 3,
        shader_objects :=
          [2 \<mapsto> \<lparr>so_type = Vertex, so_source = ''V'' @ [LF], so_compiled = True\<rparr>],
        program_objects := [1 \<mapsto> \<lparr>po_linked = False, po_log = []\<rparr>],
        attachments := [(1, 2)]\<rparr>"

definition example_shader :: Shader where
  "example_shader = \<lparr>m_Handle = 1, m_IsLinked = False, m_UniformLocations = Map.empty\<rparr>"

text \<open>The driver after \<^verbatim>\<open>Shader::Create("flat.glsl")\<close>.\<close>

definition example_driver :: "bool \<Rightarrow> string \<Rightarrow> GL" where
  "example_driver ok log =
     (test_driver ok log)
       \<lparr>calls :=
          [CreateProgram,
           CreateShader Vertex, ShaderSource 2 (''V'' @ [LF]), CompileShader 2,
           GetShaderiv_COMPILE_STATUS 2, AttachShader 1 2,
           CreateShader Fragment, ShaderSource 3 (''F'' @ [LF]), CompileShader 3,
           GetShaderiv_COMPILE_STATUS 3, AttachShader 1 3],
        next_name := 4,
        shader_objects :=
          [2 \<mapsto> \<lparr>so_type = Vertex, so_source = ''V'' @ [LF], so_compiled = True\<rparr>,
           3 \<mapsto> \<lparr>so_type = Fragment, so_source = ''F'' @ [LF], so_compiled = True\<rparr>],
        program_objects := [1 \<mapsto> \<lparr>po_linked = False, po_log = []\<rparr>],
        attachments := [(1, 2), (1, 3)]\<rparr>"

text \<open>The driver after \<^verbatim>\<open>Shader::Create("broken.glsl")\<close> has thrown.\<close>

definition after_failure :: GL where
  "after_failure =
     (after_vertex True [])
       \<lparr>calls :=
          calls (after_vertex True []) @
          [CreateShader Geometry, ShaderSource 3 (''BAD'' @ [LF]), CompileShader 3,
           GetShaderiv_COMPILE_STATUS 3, GetShaderiv_INFO_LOG_LENGTH 3,
           GetShaderInfoLog 3 13, DeleteShader 3],
        next_name := 4\<rparr>"

text \<open>The driver after the first \<^verbatim>\<open>Shader::Bind\<close> of that program, when it links.\<close>

definition bound_driver :: GL where
  "bound_driver =
     (test_driver True [])
       \<lparr>calls :=
          calls (example_driver True []) @
          [LinkProgram 1, GetProgramiv_ATTACHED_SHADERS 1, GetAttachedShaders 1 2,
           GetProgramiv_LINK_STATUS 1, ValidateProgram 1,
           DetachShader 1 2, DeleteShader 2, DetachShader 1 3, DeleteShader 3,
           UseProgram 1],
        next_name := 4,
        program_objects := [1 \<mapsto> \<lparr>po_linked = True, po_log = []\<rparr>],
        current_program := 1\<rparr>"



definition one :: float where
  "one = 0x3F800000"

definition identity :: mat4 where
  "identity = ((one, 0, 0, 0), (0, one, 0, 0), (0, 0, one, 0), (0, 0, 0, one))"



section \<open>Properties of the splitter\<close>

lemma marker_at_chars:
  "marker_at s p \<longleftrightarrow>
     p + 5 \<le> length s \<and> s ! p = CHR ''#'' \<and> s ! (p + 1) = CHR ''t'' \<and> s ! (p + 2) = CHR ''y''
     \<and> s ! (p + 3) = CHR ''p'' \<and> s ! (p + 4) = CHR ''e''"
proof -
  have n: "(\<forall>i<5::nat. P i) \<longleftrightarrow> P 0 \<and> P 1 \<and> P 2 \<and> P 3 \<and> P 4" for P
  proof -
    have "i < 5 \<longleftrightarrow> i = 0 \<or> i = 1 \<or> i = 2 \<or> i = 3 \<or> i = 4" for i :: nat by arith
    then show ?thesis by auto
  qed
  have lt: "length token = 5" by (simp add: token_def)
  show ?thesis unfolding marker_at_def lt
  proof (cases "p + 5 \<le> length s")
    case True
    then have l: "length (take 5 (drop p s)) = 5" by simp
    have "take 5 (drop p s) = ''#type'' \<longleftrightarrow>
        (\<forall>i<5. take 5 (drop p s) ! i = ''#type'' ! i)"
      using l by (simp add: list_eq_iff_nth_eq)
    also have "\<dots> \<longleftrightarrow> (\<forall>i<5. s ! (p + i) = ''#type'' ! i)"
      using True by simp
    finally show "take 5 (drop p s) = token \<longleftrightarrow>
     p + 5 \<le> length s \<and> s ! p = CHR ''#'' \<and> s ! (p + 1) = CHR ''t'' \<and> s ! (p + 2) = CHR ''y''
     \<and> s ! (p + 3) = CHR ''p'' \<and> s ! (p + 4) = CHR ''e''" using True by (simp add: token_def n)
  next
    case False
    then have ne: "length (take 5 (drop p s)) \<noteq> 5" by simp
    have "take 5 (drop p s) \<noteq> ''#type''"
    proof
      assume e: "take 5 (drop p s) = ''#type''"
      have "length (take 5 (drop p s)) = 5" unfolding e by simp
      with ne show False by simp
    qed
    with False show "take 5 (drop p s) = token \<longleftrightarrow>
     p + 5 \<le> length s \<and> s ! p = CHR ''#'' \<and> s ! (p + 1) = CHR ''t'' \<and> s ! (p + 2) = CHR ''y''
     \<and> s ! (p + 3) = CHR ''p'' \<and> s ! (p + 4) = CHR ''e''" by (simp add: token_def)
  qed
qed

lemma recognized_facts:
  assumes "recognized t"
  shows "CHR ''#'' \<notin> set t" and "take 4 t \<noteq> ''type''" and "length t \<le> 14"
    and "\<forall>c \<in> set t. c \<notin> set eols"
  using assms by (auto simp: recognized_def types_def eols_def CR_def LF_def)

lemma GetShaderTypeFromString_None_iff:
  "GetShaderTypeFromString t = ShaderNone \<longleftrightarrow> \<not> recognized t"
  by (auto simp: GetShaderTypeFromString_def recognized_def types_def)




lemma find_aux_None_iff:
  "tok \<noteq> [] \<Longrightarrow> find_aux tok cs i = None \<longleftrightarrow> (\<forall>k. take (length tok) (drop k cs) \<noteq> tok)"
proof (induction cs arbitrary: i)
  case Nil
  then show ?case by auto
next
  case (Cons c cs)
  show ?case
  proof (cases "take (length tok) (c # cs) = tok")
    case True
    then have "take (length tok) (drop 0 (c # cs)) = tok" by simp
    with True show ?thesis by (metis find_aux.simps(2) option.distinct(1))
  next
    case False
    have "(\<forall>k. take (length tok) (drop k (c # cs)) \<noteq> tok) \<longleftrightarrow>
          (\<forall>k. take (length tok) (drop k cs) \<noteq> tok)"
    proof
      assume a: "\<forall>k. take (length tok) (drop k (c # cs)) \<noteq> tok"
      show "\<forall>k. take (length tok) (drop k cs) \<noteq> tok"
      proof
        fix k from a have "take (length tok) (drop (Suc k) (c # cs)) \<noteq> tok" by blast
        then show "take (length tok) (drop k cs) \<noteq> tok" by simp
      qed
    next
      assume a: "\<forall>k. take (length tok) (drop k cs) \<noteq> tok"
      show "\<forall>k. take (length tok) (drop k (c # cs)) \<noteq> tok"
      proof
        fix k show "take (length tok) (drop k (c # cs)) \<noteq> tok"
          using a False by (cases k) auto
      qed
    qed
    with False Cons show ?thesis by simp
  qed
qed

lemma find_aux_Some_iff:
  "find_aux tok cs i = Some k \<longleftrightarrow>
     i \<le> k \<and> k - i \<le> length cs \<and> take (length tok) (drop (k - i) cs) = tok \<and> length tok \<le> length cs - (k - i) \<and>
     (\<forall>j < k - i. take (length tok) (drop j cs) \<noteq> tok)"
proof (induction cs arbitrary: i)
  case Nil
  then show ?case by auto
next
  case (Cons c cs)
  show ?case
  proof (cases "take (length tok) (c # cs) = tok")
    case True
    then have "length (take (length tok) (c # cs)) = length tok" by simp
    then have l: "length tok \<le> length (c # cs)" by (simp only: length_take)
    show ?thesis
    proof
      assume "find_aux tok (c # cs) i = Some k"
      with True have "k = i" by simp
      with True l show "i \<le> k \<and> k - i \<le> length (c # cs) \<and> take (length tok) (drop (k - i) (c # cs)) = tok \<and> length tok \<le> length (c # cs) - (k - i) \<and>
     (\<forall>j < k - i. take (length tok) (drop j (c # cs)) \<noteq> tok)" by simp
    next
      assume a: "i \<le> k \<and> k - i \<le> length (c # cs) \<and> take (length tok) (drop (k - i) (c # cs)) = tok \<and> length tok \<le> length (c # cs) - (k - i) \<and>
     (\<forall>j < k - i. take (length tok) (drop j (c # cs)) \<noteq> tok)"
      have "k - i = 0"
      proof (rule ccontr)
        assume "k - i \<noteq> 0" then have "0 < k - i" by simp
        with a have "take (length tok) (drop 0 (c # cs)) \<noteq> tok" by blast
        with True show False by simp
      qed
      with a have "k = i" by simp
      with True show "find_aux tok (c # cs) i = Some k" by simp
    qed
  next
    case False
    then have f: "find_aux tok (c # cs) i = find_aux tok cs (Suc i)" by simp
    show ?thesis unfolding f Cons.IH
    proof
      assume a: "Suc i \<le> k \<and> k - Suc i \<le> length cs \<and> take (length tok) (drop (k - Suc i) cs) = tok \<and> length tok \<le> length cs - (k - Suc i) \<and>
          (\<forall>j<k - Suc i. take (length tok) (drop j cs) \<noteq> tok)"
      then have e: "k - i = Suc (k - Suc i)" by arith
      have "\<forall>j<k - i. take (length tok) (drop j (c # cs)) \<noteq> tok"
      proof (intro allI impI)
        fix j assume "j < k - i"
        then show "take (length tok) (drop j (c # cs)) \<noteq> tok"
          using a False e by (cases j) auto
      qed
      with a e show "i \<le> k \<and> k - i \<le> length (c # cs) \<and> take (length tok) (drop (k - i) (c # cs)) = tok \<and> length tok \<le> length (c # cs) - (k - i) \<and>
     (\<forall>j < k - i. take (length tok) (drop j (c # cs)) \<noteq> tok)" by auto
    next
      assume a: "i \<le> k \<and> k - i \<le> length (c # cs) \<and> take (length tok) (drop (k - i) (c # cs)) = tok \<and> length tok \<le> length (c # cs) - (k - i) \<and>
     (\<forall>j < k - i. take (length tok) (drop j (c # cs)) \<noteq> tok)"
      have "k - i \<noteq> 0" using a False by (auto intro: ccontr)
      then obtain d where e: "k - i = Suc d" by (cases "k - i") auto
      then have d: "d = k - Suc i" "Suc i \<le> k" by arith+
      have "\<forall>j<d. take (length tok) (drop j cs) \<noteq> tok"
      proof (intro allI impI)
        fix j assume "j < d"
        then have "Suc j < k - i" using e by simp
        with a have "take (length tok) (drop (Suc j) (c # cs)) \<noteq> tok" by blast
        then show "take (length tok) (drop j cs) \<noteq> tok" by simp
      qed
      with a e d show "Suc i \<le> k \<and> k - Suc i \<le> length cs \<and> take (length tok) (drop (k - Suc i) cs) = tok \<and> length tok \<le> length cs - (k - Suc i) \<and>
          (\<forall>j<k - Suc i. take (length tok) (drop j cs) \<noteq> tok)" by auto
    qed
  qed
qed


lemma length_token: "length token = 5"
  by (simp add: token_def)

lemma str_find_marker:
  assumes m: "marker_at s p" and le: "pos \<le> p"
  shows "\<exists>q. str_find s token pos = Some q \<and> pos \<le> q \<and> q \<le> p \<and> marker_at s q"
proof -
  from m have len: "p + 5 \<le> length s" by (simp add: marker_at_chars)
  with le have f: "str_find s token pos = find_aux token (drop pos s) pos"
    by (simp add: str_find_def)
  from m le have at: "take (length token) (drop (p - pos) (drop pos s)) = token"
    by (simp add: marker_at_def)
  have "find_aux token (drop pos s) pos \<noteq> None"
  proof
    assume "find_aux token (drop pos s) pos = None"
    then have "\<forall>k. take (length token) (drop k (drop pos s)) \<noteq> token"
      by (subst (asm) find_aux_None_iff) (simp_all add: token_def)
    with at show False by blast
  qed
  then obtain q where q: "find_aux token (drop pos s) pos = Some q" by auto
  then have 1: "pos \<le> q" "take (length token) (drop (q - pos) (drop pos s)) = token"
    and 2: "\<forall>j < q - pos. take (length token) (drop j (drop pos s)) \<noteq> token"
    unfolding find_aux_Some_iff by blast+
  from 1(1) have "drop (q - pos) (drop pos s) = drop q s" by simp
  with 1 have mq: "marker_at s q" by (simp only: marker_at_def)
  have "q \<le> p"
  proof (rule ccontr)
    assume "\<not> q \<le> p"
    with le have "p - pos < q - pos" by arith
    with 2 at show False by blast
  qed
  with f q 1 mq show ?thesis by simp
qed

lemma str_find_None_iff:
  "str_find s token pos = None \<longleftrightarrow> (\<forall>p. pos \<le> p \<longrightarrow> \<not> marker_at s p)"
proof
  assume n: "str_find s token pos = None"
  show "\<forall>p. pos \<le> p \<longrightarrow> \<not> marker_at s p"
  proof (intro allI impI notI)
    fix p assume "pos \<le> p" "marker_at s p"
    from str_find_marker [OF this(2) this(1)] n show False by simp
  qed
next
  assume a: "\<forall>p. pos \<le> p \<longrightarrow> \<not> marker_at s p"
  show "str_find s token pos = None"
  proof (rule ccontr)
    assume "str_find s token pos \<noteq> None"
    then obtain q where q: "str_find s token pos = Some q" by auto
    then have "length s \<ge> pos" and f: "find_aux token (drop pos s) pos = Some q"
      by (auto simp: str_find_def split: if_splits)
    from f have 1: "pos \<le> q" "take (length token) (drop (q - pos) (drop pos s)) = token"
      unfolding find_aux_Some_iff by blast+
    from 1(1) have "drop (q - pos) (drop pos s) = drop q s" by simp
    with 1 have "marker_at s q" by (simp only: marker_at_def)
    with a \<open>pos \<le> q\<close> show False by blast
  qed
qed



lemma begin_eq: "p + length token + 1 = p + 6"
  by (simp add: token_def)













lemma token_free_iff: "token_free b \<longleftrightarrow> (\<forall>p. \<not> marker_at b p)"
  by (simp add: token_free_def str_find_None_iff)

lemma marker_at_drop: "marker_at (drop k b) p = marker_at b (k + p)"
  by (simp add: marker_at_def add.commute)

lemma token_free_drop: "token_free b \<Longrightarrow> token_free (drop k b)"
  by (simp add: token_free_iff marker_at_drop)

lemma token_free_dropWhile: "token_free b \<Longrightarrow> token_free (dropWhile P b)"
  using token_free_drop [of b "length (takeWhile P b)"] by (simp add: dropWhile_eq_drop)

lemma first_where_skip:
  "\<forall>c \<in> set xs. \<not> P c \<Longrightarrow> first_where P (xs @ ys) i = first_where P ys (i + length xs)"
  by (induction xs arbitrary: i) simp_all

text \<open>No marker straddles the end of a marker-free body and the text that follows it.\<close>

lemma no_marker_across:
  assumes tf: "token_free b" and ne: "b \<noteq> []" and rest: "rest = [] \<or> marker_at rest 0"
  shows "\<not> marker_at (b @ rest) 0"
proof
  assume m: "marker_at (b @ rest) 0"
  then have ch: "5 \<le> length (b @ rest)" "(b @ rest) ! 1 = CHR ''t''" "(b @ rest) ! 2 = CHR ''y''"
    "(b @ rest) ! 3 = CHR ''p''" "(b @ rest) ! 4 = CHR ''e''"
    by (simp_all add: marker_at_chars eval_nat_numeral)
  show False
  proof (cases "5 \<le> length b")
    case True
    with m have "marker_at b 0" by (simp add: marker_at_def length_token)
    with tf show False by (simp add: token_free_iff)
  next
    case False
    with ch(1) have "rest \<noteq> []" by auto
    with rest have "rest ! 0 = CHR ''#''" by (simp add: marker_at_chars)
    then have "(b @ rest) ! length b = CHR ''#''" by (simp add: nth_append)
    moreover from ne have "0 < length b" by simp
    with False have "length b = 1 \<or> length b = 2 \<or> length b = 3 \<or> length b = 4"
      by arith
    ultimately show False using ch by auto
  qed
qed

lemma find_aux_body:
  assumes "token_free b" and "rest = [] \<or> marker_at rest 0"
  shows "find_aux token (b @ rest) i = (if rest = [] then None else Some (i + length b))"
  using assms(1)
proof (induction b arbitrary: i)
  case Nil
  show ?case
  proof (cases rest)
    case Nil
    then show ?thesis by (simp add: token_def)
  next
    case (Cons c cs)
    with assms(2) have "take (length token) (c # cs) = token" by (simp add: marker_at_def)
    with Cons show ?thesis by simp
  qed
next
  case (Cons c b)
  from no_marker_across [OF Cons.prems _ assms(2)]
  have "take (length token) ((c # b) @ rest) \<noteq> token" by (simp add: marker_at_def)
  moreover from token_free_drop [OF Cons.prems, of 1] have "token_free b" by simp
  ultimately show ?case using Cons.IH [of "Suc i"] by simp
qed


lemma drop_length_append: "n = length xs \<Longrightarrow> drop n (xs @ ys) = ys"
  by simp

lemma first_where_hd: "ys \<noteq> [] \<Longrightarrow> P (hd ys) \<Longrightarrow> first_where P ys i = Some i"
  by (cases ys) simp_all

lemma ParseShader_body_section:
  assumes n: "recognized name" and tf: "token_free body"
    and rest: "rest = [] \<or> marker_at rest 0"
    and ok: "dropWhile is_eol body \<noteq> [] \<or> rest \<noteq> []"
  shows "ParseShader_body (pre @ section_text (name, body) @ rest) (length pre) r =
           Inr (if rest = [] then None
                else Some (length pre + length (section_text (name, body))),
                r(GetShaderTypeFromString name \<mapsto> dropWhile is_eol body))"
proof -
  define s where "s = pre @ section_text (name, body) @ rest"
  define q where "q = length pre"
  define eol where "eol = q + 6 + length name"
  define tw where "tw = takeWhile is_eol body"
  define dw where "dw = dropWhile is_eol body"
  define nlp where "nlp = eol + 1 + length tw"
  have body: "body = tw @ dw" by (simp add: tw_def dw_def)
  have s1: "s = pre @ (token @ '' '' @ name) @ LF # body @ rest"
    by (simp add: s_def section_text_def)
  have d1: "drop q s = (token @ '' '' @ name) @ LF # body @ rest"
    by (simp add: s1 q_def)
  have "s = (pre @ token @ '' '') @ name @ LF # body @ rest" by (simp add: s1)
  moreover have "q + 6 = length (pre @ token @ '' '')" by (simp add: q_def token_def)
  ultimately have d2: "drop (q + 6) s = name @ LF # body @ rest"
    by (simp only: drop_length_append)
  have "s = (pre @ token @ '' '' @ name) @ LF # tw @ dw @ rest" using body by (simp add: s1)
  moreover have "eol = length (pre @ token @ '' '' @ name)"
    by (simp add: eol_def q_def token_def)
  ultimately have d3: "drop eol s = LF # tw @ dw @ rest"
    by (simp only: drop_length_append)
  have "s = (pre @ token @ '' '' @ name @ LF # tw) @ dw @ rest" using body by (simp add: s1)
  moreover have "nlp = length (pre @ token @ '' '' @ name @ LF # tw)"
    by (simp add: nlp_def eol_def q_def token_def)
  ultimately have d4: "drop nlp s = dw @ rest"
    by (simp only: drop_length_append)
  have len: "length s = nlp + length dw + length rest"
    using body by (simp add: s1 q_def eol_def nlp_def token_def)
  have e: "find_first_of s eols q = Some eol"
  proof -
    have "\<forall>c \<in> set (token @ '' '' @ name). \<not> c \<in> set eols"
      using recognized_facts(4) [OF n] by (auto simp: token_def eols_def CR_def LF_def)
    then have "first_where (\<lambda>c. c \<in> set eols) (drop q s) q
        = first_where (\<lambda>c. c \<in> set eols) (LF # body @ rest) (q + length (token @ '' '' @ name))"
      unfolding d1 by (rule first_where_skip)
    then show ?thesis by (simp add: find_first_of_def eol_def eols_def token_def)
  qed
  have t: "substr s (q + length token + 1) (size_sub eol (q + length token + 1)) = Inr name"
  proof -
    have "size_sub eol (q + 6) = length name" by (simp add: size_sub_def eol_def)
    moreover have "\<not> length s < q + 6" using len by (simp add: nlp_def eol_def)
    ultimately show ?thesis unfolding begin_eq substr_def d2 by simp
  qed
  have k: "GetShaderTypeFromString name \<noteq> ShaderNone"
    using n by (simp add: GetShaderTypeFromString_None_iff)
  have nl: "find_first_not_of s eols eol = Some nlp"
  proof -
    have "\<forall>c \<in> set (LF # tw). \<not> c \<notin> set eols"
      using set_takeWhileD [of _ is_eol body] by (auto simp: tw_def is_eol_def eols_def)
    then have "first_where (\<lambda>c. c \<notin> set eols) ((LF # tw) @ dw @ rest) eol
        = first_where (\<lambda>c. c \<notin> set eols) (dw @ rest) (eol + length (LF # tw))"
      by (rule first_where_skip)
    moreover have "first_where (\<lambda>c. c \<notin> set eols) (dw @ rest) nlp = Some nlp"
    proof (rule first_where_hd)
      from ok show "dw @ rest \<noteq> []" by (auto simp: dw_def)
      show "hd (dw @ rest) \<notin> set eols"
      proof (cases "dw = []")
        case True
        with ok have "rest \<noteq> []" by (simp add: dw_def)
        with rest have "rest ! 0 = CHR ''#''" by (simp add: marker_at_chars)
        with True \<open>rest \<noteq> []\<close> show ?thesis
          by (simp add: hd_conv_nth eols_def CR_def LF_def)
      next
        case False
        with hd_dropWhile [of is_eol body] show ?thesis by (simp add: dw_def is_eol_def)
      qed
    qed
    ultimately show ?thesis by (simp add: find_first_not_of_def d3 nlp_def)
  qed
  have f: "str_find s token nlp = (if rest = [] then None else Some (nlp + length dw))"
  proof -
    have "token_free dw" unfolding dw_def using tf by (rule token_free_dropWhile)
    from find_aux_body [OF this rest, of nlp] show ?thesis
      using len by (simp add: str_find_def d4)
  qed
  have x1: "substr_from s nlp = Inr (dw @ rest)"
    using len by (simp add: substr_from_def d4)
  have x2: "substr s nlp (size_sub (nlp + length dw) nlp) = Inr dw"
    using len by (simp add: substr_def d4 size_sub_def)
  have pos: "nlp + length dw = length pre + length (section_text (name, body))"
    using body by (simp add: nlp_def eol_def q_def section_text_def token_def)
  have "ParseShader_body s q r =
          Inr (if rest = [] then None else Some (nlp + length dw),
               r(GetShaderTypeFromString name \<mapsto> dw))"
    unfolding ParseShader_body_def Let_def e option.case t sum.case nl f
    using k x1 x2 by simp
  then show ?thesis unfolding pos unfolding s_def q_def dw_def .
qed


lemma render_Cons: "render (x # secs) = section_text x @ render secs"
  by (simp add: render_def)

lemma render_start: "render secs = [] \<or> marker_at (render secs) 0"
  by (cases secs) (auto simp: render_def section_text_def marker_at_def token_def)

lemma render_Nil_iff: "render secs = [] \<longleftrightarrow> secs = []"
  by (cases secs) (auto simp: render_def section_text_def token_def)

lemma ParseShader_loop_render:
  assumes "valid_source secs" and "secs \<noteq> [] \<longrightarrow> dropWhile is_eol (snd (last secs)) \<noteq> []"
  shows "ParseShader_loop (pre @ render secs) (if secs = [] then None else Some (length pre)) r
         = Inr (r ++ map_of (rev (map (\<lambda>(name, body).
                  (GetShaderTypeFromString name, dropWhile is_eol body)) secs)))"
  using assms
proof (induction secs arbitrary: pre r)
  case Nil
  then show ?case by simp
next
  case (Cons x secs)
  obtain name body where x: "x = (name, body)" by (cases x)
  from Cons.prems(1) x have n: "recognized name" and tf: "token_free body"
    and v: "valid_source secs"
    by (simp_all add: valid_source_def)
  from Cons.prems(2) x have ok: "dropWhile is_eol body \<noteq> [] \<or> render secs \<noteq> []"
    and l: "secs \<noteq> [] \<longrightarrow> dropWhile is_eol (snd (last secs)) \<noteq> []"
    by (auto simp: render_Nil_iff)
  let ?r' = "r(GetShaderTypeFromString name \<mapsto> dropWhile is_eol body)"
  have b: "ParseShader_body (pre @ render (x # secs)) (length pre) r
           = Inr (if secs = [] then None else Some (length (pre @ section_text x)), ?r')"
    using ParseShader_body_section [OF n tf render_start ok, of pre r]
    by (simp add: render_Cons x render_Nil_iff)
  have eq: "pre @ render (x # secs) = (pre @ section_text x) @ render secs"
    by (simp add: render_Cons)
  have "ParseShader_loop (pre @ render (x # secs)) (Some (length pre)) r
        = ParseShader_loop (pre @ render (x # secs))
            (if secs = [] then None else Some (length (pre @ section_text x))) ?r'"
    by (simp only: ParseShader_loop.simps(2) b sum.case prod.case)
  also have "\<dots> = ParseShader_loop ((pre @ section_text x) @ render secs)
            (if secs = [] then None else Some (length (pre @ section_text x))) ?r'"
    by (simp only: eq)
  also have "\<dots> = Inr (?r' ++ map_of (rev (map (\<lambda>(name, body).
                  (GetShaderTypeFromString name, dropWhile is_eol body)) secs)))"
    by (rule Cons.IH [OF v l])
  finally show ?case by (simp add: x map_add_def fun_eq_iff split: option.splits)
qed

lemma ParseShader_no_marker:
  assumes "\<forall>p. \<not> marker_at s p"
  shows "ParseShader s = Inr Map.empty"
proof -
  from assms have "str_find s token 0 = None" by (simp add: str_find_None_iff)
  then show ?thesis by (simp add: ParseShader_def)
qed

lemma ParseShader_render:
  assumes v: "valid_source secs"
    and ok: "secs \<noteq> [] \<longrightarrow> dropWhile is_eol (snd (last secs)) \<noteq> []"
  shows "ParseShader (render secs) =
           Inr (map_of (rev (map (\<lambda>(name, body).
                  (GetShaderTypeFromString name, dropWhile is_eol body)) secs)))"
proof -
  have f: "str_find (render secs) token 0 = (if secs = [] then None else Some (length ([]::string)))"
    by (cases secs) (auto simp: render_def section_text_def str_find_def token_def)
  from ParseShader_loop_render [OF v ok, of "[]" Map.empty]
  show ?thesis unfolding ParseShader_def f by simp
qed

text \<open>
  Claim C7, as amended. For a valid source text whose last body has a character other
  than carriage return and line feed, \<^verbatim>\<open>ParseShader\<close> returns the map whose keys are
  exactly the kinds the text names and whose value for a kind is the body of the last
  section of that kind without its leading carriage returns and line feeds. A text with
  no marker gives the empty map.
\<close>

theorem ParseShader_valid_source:
  "(valid_source secs \<and> (secs \<noteq> [] \<longrightarrow> dropWhile is_eol (snd (last secs)) \<noteq> []) \<longrightarrow>
      ParseShader (render secs) =
        Inr (map_of (rev (map (\<lambda>(name, body).
               (GetShaderTypeFromString name, dropWhile is_eol body)) secs)))
      \<and> dom (map_of (rev (map (\<lambda>(name, body).
               (GetShaderTypeFromString name, dropWhile is_eol body)) secs)))
          = (\<lambda>(name, body). GetShaderTypeFromString name) ` set secs)
   \<and> ((\<forall>p. \<not> marker_at s p) \<longrightarrow> ParseShader s = Inr Map.empty)"
proof (intro conjI impI)
  assume "valid_source secs \<and> (secs \<noteq> [] \<longrightarrow> dropWhile is_eol (snd (last secs)) \<noteq> [])"
  then show "ParseShader (render secs) =
        Inr (map_of (rev (map (\<lambda>(name, body).
               (GetShaderTypeFromString name, dropWhile is_eol body)) secs)))"
    by (simp add: ParseShader_render)
next
  show "dom (map_of (rev (map (\<lambda>(name, body).
               (GetShaderTypeFromString name, dropWhile is_eol body)) secs)))
          = (\<lambda>(name, body). GetShaderTypeFromString name) ` set secs"
    by (force simp: dom_map_of_conv_image_fst)
next
  assume "\<forall>p. \<not> marker_at s p"
  then show "ParseShader s = Inr Map.empty" by (rule ParseShader_no_marker)
qed

lemmas splitter_eval =
  valid_source_def recognized_def token_free_def is_eol_def render_def section_text_def
  str_find_def types_def token_def eols_def LF_def CR_def GetShaderTypeFromString_def

theorem ParseShader_valid_source_witness:
  "valid_source [(''vertex'', ''A'' @ [LF]), (''fragment'', ''B'' @ [LF])]
   \<and> ParseShader (''#type vertex'' @ [LF] @ ''A'' @ [LF] @ ''#type fragment'' @ [LF] @ ''B'' @ [LF])
       = Inr [Vertex \<mapsto> ''A'' @ [LF], Fragment \<mapsto> ''B'' @ [LF]]
   \<and> ParseShader ''void main() {}'' = Inr Map.empty"
proof -
  have 1: "valid_source [(''vertex'', ''A'' @ [LF]), (''fragment'', ''B'' @ [LF])]"
    by (simp add: splitter_eval)
  have 2: "\<forall>p. \<not> marker_at ''void main() {}'' p"
    using str_find_None_iff [of "''void main() {}''" 0] by (simp add: str_find_def token_def)
  have 3: "[Fragment \<mapsto> ''B'' @ [LF], Vertex \<mapsto> ''A'' @ [LF]]
           = [Vertex \<mapsto> ''A'' @ [LF], Fragment \<mapsto> ''B'' @ [LF]]"
    by (simp add: fun_upd_twist)
  from ParseShader_valid_source
    [of "[(''vertex'', ''A'' @ [LF]), (''fragment'', ''B'' @ [LF])]" "''void main() {}''"] 1 2
  show ?thesis
    by (simp add: render_def section_text_def token_def is_eol_def eols_def LF_def CR_def
        GetShaderTypeFromString_def types_def fun_upd_twist)
qed

text \<open>
  Claim C7 as the spec states it fails: the text \<^verbatim>\<open>"#type vertex\n\nA\n"\<close> is valid, the
  text between its marker line and the end of input is \<^verbatim>\<open>"\nA\n"\<close>, and the value the
  code stores for the vertex stage is \<^verbatim>\<open>"A\n"\<close>.
\<close>

theorem ParseShader_drops_leading_blank_line:
  "valid_source [(''vertex'', [LF] @ ''A'' @ [LF])]
   \<and> render [(''vertex'', [LF] @ ''A'' @ [LF])] = ''#type vertex'' @ [LF] @ [LF] @ ''A'' @ [LF]
   \<and> ParseShader (''#type vertex'' @ [LF] @ [LF] @ ''A'' @ [LF]) = Inr [Vertex \<mapsto> ''A'' @ [LF]]
   \<and> ParseShader (''#type vertex'' @ [LF] @ [LF] @ ''A'' @ [LF])
       \<noteq> Inr [Vertex \<mapsto> [LF] @ ''A'' @ [LF]]"
proof -
  have "ParseShader (''#type vertex'' @ [LF] @ [LF] @ ''A'' @ [LF]) = Inr [Vertex \<mapsto> ''A'' @ [LF]]"
    by (simp add: ParseShader_def ParseShader_body_def str_find_def find_first_of_def
        find_first_not_of_def substr_def substr_from_def size_sub_def token_def eols_def
        LF_def CR_def GetShaderTypeFromString_def types_def)
  moreover have "[Vertex \<mapsto> ''A'' @ [LF]] \<noteq> [Vertex \<mapsto> [LF] @ ''A'' @ [LF]]"
  proof
    assume "[Vertex \<mapsto> ''A'' @ [LF]] = [Vertex \<mapsto> [LF] @ ''A'' @ [LF]]"
    from map_upd_eqD1 [OF this] show False by (simp add: LF_def)
  qed
  moreover have "valid_source [(''vertex'', [LF] @ ''A'' @ [LF])]"
    by (simp add: splitter_eval)
  moreover have "render [(''vertex'', [LF] @ ''A'' @ [LF])]
      = ''#type vertex'' @ [LF] @ [LF] @ ''A'' @ [LF]"
    by (simp add: render_def section_text_def token_def)
  ultimately show ?thesis by (simp only: simp_thms sum.inject)
qed

section \<open>Properties of the index buffer\<close>

text \<open>
  Claim C10. \<^verbatim>\<open>IndexBuffer::Create\<close> makes exactly three calls to the driver: it
  generates a buffer name, binds that name as the index buffer and uploads the data. The
  object's handle is the generated name, and when the call returns the driver's active
  index-buffer binding is that handle, for every argument and every driver state: the
  constructor binds the new buffer and never unbinds it.
\<close>

theorem IndexBuffer_Create_leaves_buffer_bound:
  "ib_Handle (fst (IndexBuffer_Create sizeof_IndexType indices count usage gl))
     = fst (glGenBuffers gl)
   \<and> ib_Count (fst (IndexBuffer_Create sizeof_IndexType indices count usage gl)) = count
   \<and> ib_Usage (fst (IndexBuffer_Create sizeof_IndexType indices count usage gl)) = usage
   \<and> calls (snd (IndexBuffer_Create sizeof_IndexType indices count usage gl))
     = calls gl @
       [GenBuffers,
        BindBuffer_ELEMENT_ARRAY (fst (glGenBuffers gl)),
        BufferData_ELEMENT_ARRAY (sint (of_nat (count * sizeof_IndexType) :: 64 word))
          indices usage]
   \<and> element_array_buffer (snd (IndexBuffer_Create sizeof_IndexType indices count usage gl))
     = ib_Handle (fst (IndexBuffer_Create sizeof_IndexType indices count usage gl))"
  by (simp add: IndexBuffer_Create_def glGenBuffers_def glBindBuffer_ELEMENT_ARRAY_def
      glBufferData_ELEMENT_ARRAY_def called_def Let_def)

section \<open>Properties of the program\<close>

lemma release_calls:
  "calls (release p hs g) = calls g @ concat (map (\<lambda>h. [DetachShader p h, DeleteShader h]) hs)"
  unfolding release_def
  by (induction hs arbitrary: g) (simp_all add: glDeleteShader_def glDetachShader_def called_def Let_def)

lemma release_program_objects: "program_objects (release p hs g) = program_objects g"
  unfolding release_def
  by (induction hs arbitrary: g) (simp_all add: glDeleteShader_def glDetachShader_def called_def Let_def)

lemma release_uniform_location: "uniform_location (release p hs g) = uniform_location g"
  unfolding release_def
  by (induction hs arbitrary: g) (simp_all add: glDeleteShader_def glDetachShader_def called_def Let_def)

lemma release_link_requests: "link_requests (release p hs g) = link_requests g"
  by (simp add: link_requests_def release_calls filter_concat comp_def)

lemma Link_success:
  assumes "program_objects gl (m_Handle sh) = Some po" and "links gl (m_Handle sh)"
  shows "Link (sh, gl) = (Inr (), sh\<lparr>m_IsLinked := True\<rparr>,
           release (m_Handle sh) (attached gl (m_Handle sh))
             (glValidateProgram (m_Handle sh)
               (called (GetProgramiv_LINK_STATUS (m_Handle sh))
                 (called (GetAttachedShaders (m_Handle sh) (length (attached gl (m_Handle sh))))
                   (called (GetProgramiv_ATTACHED_SHADERS (m_Handle sh))
                     (glLinkProgram (m_Handle sh) gl))))))"
  using assms
  by (simp add: Link_def release_def glLinkProgram_def glGetProgramiv_ATTACHED_SHADERS_def
      glGetAttachedShaders_def glGetProgramiv_LINK_STATUS_def called_def attached_def Let_def)

lemma Link_keeps_linked: "m_IsLinked sh \<Longrightarrow> m_IsLinked (fst (snd (Link (sh, gl))))"
  by (simp add: Link_def Let_def split: prod.splits option.splits bool.splits)

lemma Compile_keeps_linked:
  "m_IsLinked sh \<Longrightarrow> m_IsLinked (fst (snd (Compile type source (sh, gl))))"
  by (simp add: Compile_def Let_def split: prod.splits option.splits bool.splits)

lemma Bind_keeps_linked: "m_IsLinked sh \<Longrightarrow> m_IsLinked (fst (snd (Bind (sh, gl))))"
  by (simp add: Bind_def)

lemma GetUniformLocation_keeps_linked:
  "m_IsLinked sh \<Longrightarrow> m_IsLinked (fst (snd (GetUniformLocation name (sh, gl))))"
  by (simp add: GetUniformLocation_def subscript_def Let_def split: prod.splits option.splits)

lemma perform_keeps_linked: "m_IsLinked (fst x) \<Longrightarrow> m_IsLinked (fst (perform op x))"
proof (cases x)
  case (Pair sh gl)
  assume "m_IsLinked (fst x)"
  with Pair have l: "m_IsLinked sh" by simp
  show ?thesis
  proof (cases op)
    case (DoCompile t src)
    with Pair Compile_keeps_linked [OF l, of t src gl] show ?thesis by simp
  next
    case DoLink
    with Pair Link_keeps_linked [OF l, of gl] show ?thesis by simp
  next
    case DoBind
    with Pair Bind_keeps_linked [OF l, of gl] show ?thesis by simp
  next
    case DoUnbind
    with Pair l show ?thesis by simp
  next
    case (DoBindAttribLocation n name)
    with Pair l show ?thesis by (simp add: BindAttribLocation_def)
  next
    case (DoBindFragDataLocation n name)
    with Pair l show ?thesis by (simp add: BindFragDataLocation_def)
  next
    case (DoSetUniform name v)
    with Pair GetUniformLocation_keeps_linked [OF l, of name gl] show ?thesis
      by (auto simp: SetUniform_def split: prod.splits)
  next
    case (DoGetUniformLocation name)
    with Pair GetUniformLocation_keeps_linked [OF l, of name gl] show ?thesis by simp
  qed
qed

lemma lifetime_keeps_linked: "m_IsLinked (fst x) \<Longrightarrow> m_IsLinked (fst (lifetime ops x))"
  unfolding lifetime_def
  by (induction ops arbitrary: x) (simp_all add: perform_keeps_linked)


lemma calls_glUseProgram: "calls (glUseProgram p g) = calls g @ [UseProgram p]"
  by (simp add: glUseProgram_def called_def Let_def)

lemma Bind_first:
  assumes "\<not> m_IsLinked sh" and "program_objects gl (m_Handle sh) = Some po"
    and "links gl (m_Handle sh)"
  shows "\<exists>gl1. Bind (sh, gl) = (Inr (), sh\<lparr>m_IsLinked := True\<rparr>, gl1)
           \<and> link_requests gl1 = link_requests gl + 1
           \<and> last (calls gl1) = UseProgram (m_Handle sh)
           \<and> uniform_location gl1 = uniform_location gl"
proof -
  let ?g = "release (m_Handle sh) (attached gl (m_Handle sh))
             (glValidateProgram (m_Handle sh)
               (called (GetProgramiv_LINK_STATUS (m_Handle sh))
                 (called (GetAttachedShaders (m_Handle sh) (length (attached gl (m_Handle sh))))
                   (called (GetProgramiv_ATTACHED_SHADERS (m_Handle sh))
                     (glLinkProgram (m_Handle sh) gl)))))"
  have b: "Bind (sh, gl) = (Inr (), sh\<lparr>m_IsLinked := True\<rparr>, glUseProgram (m_Handle sh) ?g)"
    using assms(1) Link_success [OF assms(2,3)] by (simp add: Bind_def)
  have "link_requests ?g = link_requests gl + 1"
    using assms(2)
    by (simp add: release_link_requests)
       (simp add: link_requests_def glValidateProgram_def called_def glLinkProgram_def)
  then have "link_requests (glUseProgram (m_Handle sh) ?g) = link_requests gl + 1"
    by (simp add: link_requests_def calls_glUseProgram)
  moreover have "last (calls (glUseProgram (m_Handle sh) ?g)) = UseProgram (m_Handle sh)"
    by (simp add: calls_glUseProgram)
  moreover have "uniform_location (glUseProgram (m_Handle sh) ?g) = uniform_location gl"
    using assms(2)
    by (simp add: glUseProgram_def called_def Let_def release_uniform_location
        glValidateProgram_def glLinkProgram_def)
  ultimately show ?thesis using b by blast
qed

lemma Bind_again:
  assumes "m_IsLinked sh"
  shows "Bind (sh, gl) = (Inr (), sh, glUseProgram (m_Handle sh) gl)"
  using assms by (simp add: Bind_def)















lemma no_marker_in_zeros: "\<not> marker_at (replicate n NUL) p"
  by (auto simp: marker_at_chars NUL_def)

lemma unreadable_no_marker:
  "unreadable fs filepath \<Longrightarrow> \<exists>src. fst (ReadFile fs filepath) = Inr src \<and> (\<forall>p. \<not> marker_at src p)"
  by (auto simp: unreadable_def ReadFile_def marker_at_chars NUL_def
      split: option.splits Entry.splits)

lemma Create_no_marker:
  assumes "fst (ReadFile fs filepath) = Inr src" and "\<forall>p. \<not> marker_at src p"
  shows "Create order fs filepath gl = (Inr fresh_shader, gl, snd (ReadFile fs filepath))"
proof -
  from assms(2) have p: "ParseShader src = Inr Map.empty" by (rule ParseShader_no_marker)
  obtain read logged where r: "ReadFile fs filepath = (read, logged)"
    by (cases "ReadFile fs filepath")
  have e: "entries order Map.empty = []"
    by (simp add: entries_def List.map_filter_def)
  from p r assms(1) show ?thesis
    by (simp add: Create_def Compile_sources_def e fresh_shader_def)
qed

lemmas driver_eval = glCreateProgram_def glCreateShader_def glShaderSource_def glCompileShader_def
  glGetShaderiv_COMPILE_STATUS_def glGetShaderiv_INFO_LOG_LENGTH_def glGetShaderInfoLog_def
  glDeleteShader_def glAttachShader_def glDetachShader_def glLinkProgram_def
  glGetProgramiv_ATTACHED_SHADERS_def glGetAttachedShaders_def glGetProgramiv_LINK_STATUS_def
  glGetProgramiv_INFO_LOG_LENGTH_def glGetProgramInfoLog_def glValidateProgram_def
  glDeleteProgram_def glUseProgram_def glGetUniformLocation_def glUniform_def
  called_def attached_def shader_log_def info_log_length_def write_log_def

lemma parse_flat:
  "ParseShader flat_glsl = Inr [Vertex \<mapsto> ''V'' @ [LF], Fragment \<mapsto> ''F'' @ [LF]]"
proof -
  have 1: "valid_source [(''vertex'', ''V'' @ [LF]), (''fragment'', ''F'' @ [LF])]"
    by (simp add: splitter_eval)
  have 2: "dropWhile is_eol (snd (last [(''vertex'', ''V'' @ [LF]), (''fragment'', ''F'' @ [LF])])) \<noteq> []"
    by (simp add: is_eol_def eols_def LF_def CR_def)
  from ParseShader_render [of "[(''vertex'', ''V'' @ [LF]), (''fragment'', ''F'' @ [LF])]"] 1 2
  show ?thesis
    by (simp add: flat_glsl_def render_def section_text_def token_def is_eol_def eols_def
        LF_def CR_def GetShaderTypeFromString_def types_def fun_upd_twist)
qed

lemma parse_broken:
  "ParseShader broken_glsl = Inr [Vertex \<mapsto> ''V'' @ [LF], Geometry \<mapsto> ''BAD'' @ [LF]]"
proof -
  have 1: "valid_source [(''vertex'', ''V'' @ [LF]), (''geometry'', ''BAD'' @ [LF])]"
    by (simp add: splitter_eval)
  have 2: "dropWhile is_eol (snd (last [(''vertex'', ''V'' @ [LF]), (''geometry'', ''BAD'' @ [LF])])) \<noteq> []"
    by (simp add: is_eol_def eols_def LF_def CR_def)
  from ParseShader_render [of "[(''vertex'', ''V'' @ [LF]), (''geometry'', ''BAD'' @ [LF])]"] 1 2
  show ?thesis
    by (simp add: broken_glsl_def render_def section_text_def token_def is_eol_def eols_def
        LF_def CR_def GetShaderTypeFromString_def types_def fun_upd_twist)
qed

lemma entries_flat:
  "entries declaration_order [Vertex \<mapsto> ''V'' @ [LF], Fragment \<mapsto> ''F'' @ [LF]]
   = [(Vertex, ''V'' @ [LF]), (Fragment, ''F'' @ [LF])]"
  by (simp add: entries_def declaration_order_def List.map_filter_def)

lemma entries_broken:
  "entries declaration_order [Vertex \<mapsto> ''V'' @ [LF], Geometry \<mapsto> ''BAD'' @ [LF]]
   = [(Vertex, ''V'' @ [LF]), (Geometry, ''BAD'' @ [LF])]"
  "entries constant_order [Vertex \<mapsto> ''V'' @ [LF], Geometry \<mapsto> ''BAD'' @ [LF]]
   = [(Vertex, ''V'' @ [LF]), (Geometry, ''BAD'' @ [LF])]"
  by (simp_all add: entries_def declaration_order_def constant_order_def List.map_filter_def)

lemma Compile_vertex:
  "Compile Vertex (''V'' @ [LF]) (fresh_shader, test_driver ok log)
   = (Inr (), example_shader, after_vertex ok log)"
  by (simp add: Compile_def fresh_shader_def test_driver_def example_shader_def after_vertex_def
      driver_eval Let_def numeral_2_eq_2 [symmetric])

lemma Compile_fragment:
  "Compile Fragment (''F'' @ [LF]) (example_shader, after_vertex ok log)
   = (Inr (), example_shader, example_driver ok log)"
  by (simp add: Compile_def test_driver_def example_shader_def after_vertex_def
      example_driver_def driver_eval Let_def numeral_2_eq_2 [symmetric])

lemma Compile_geometry:
  "Compile Geometry (''BAD'' @ [LF]) (example_shader, after_vertex True [])
   = (Inl (runtime_error (''syntax error'' @ [NUL] @ '': shader compilation failed!'')),
      example_shader, after_failure)"
  by (simp add: Compile_def test_driver_def example_shader_def after_vertex_def
      after_failure_def driver_eval Let_def numeral_2_eq_2 [symmetric])

lemma Create_flat:
  "Create declaration_order example_files ''flat.glsl'' (test_driver ok log)
   = (Inr example_shader, example_driver ok log, [])"
proof -
  have r: "ReadFile example_files ''flat.glsl'' = (Inr flat_glsl, [])"
    by (simp add: ReadFile_def example_files_def)
  have c: "Compile_sources declaration_order
             [Vertex \<mapsto> ''V'' @ [LF], Fragment \<mapsto> ''F'' @ [LF]] (fresh_shader, test_driver ok log)
           = (Inr (), example_shader, example_driver ok log)"
    unfolding Compile_sources_def entries_flat
    by (simp only: Compile_each.simps Compile_vertex Compile_fragment prod.case sum.case)
  show ?thesis
    unfolding Create_def r Let_def prod.case sum.case parse_flat fresh_shader_def [symmetric] c
    by simp
qed

lemma Create_broken:
  "Create declaration_order example_files ''broken.glsl'' (test_driver True [])
   = (Inl (runtime_error (''syntax error'' @ [NUL] @ '': shader compilation failed!'')),
      after_failure, [])"
  "Create constant_order example_files ''broken.glsl'' (test_driver True [])
   = (Inl (runtime_error (''syntax error'' @ [NUL] @ '': shader compilation failed!'')),
      after_failure, [])"
proof -
  have r: "ReadFile example_files ''broken.glsl'' = (Inr broken_glsl, [])"
    by (simp add: ReadFile_def example_files_def)
  have c: "Compile_sources declaration_order
             [Vertex \<mapsto> ''V'' @ [LF], Geometry \<mapsto> ''BAD'' @ [LF]] (fresh_shader, test_driver True [])
           = (Inl (runtime_error (''syntax error'' @ [NUL] @ '': shader compilation failed!'')),
              example_shader, after_failure)"
    "Compile_sources constant_order
             [Vertex \<mapsto> ''V'' @ [LF], Geometry \<mapsto> ''BAD'' @ [LF]] (fresh_shader, test_driver True [])
           = (Inl (runtime_error (''syntax error'' @ [NUL] @ '': shader compilation failed!'')),
              example_shader, after_failure)"
    unfolding Compile_sources_def entries_broken
    by (simp_all only: Compile_each.simps Compile_vertex Compile_geometry prod.case sum.case)
  show "Create declaration_order example_files ''broken.glsl'' (test_driver True [])
   = (Inl (runtime_error (''syntax error'' @ [NUL] @ '': shader compilation failed!'')),
      after_failure, [])"
    unfolding Create_def r Let_def prod.case sum.case parse_broken fresh_shader_def [symmetric] c
    by simp
  show "Create constant_order example_files ''broken.glsl'' (test_driver True [])
   = (Inl (runtime_error (''syntax error'' @ [NUL] @ '': shader compilation failed!'')),
      after_failure, [])"
    unfolding Create_def r Let_def prod.case sum.case parse_broken fresh_shader_def [symmetric] c
    by simp
qed



text \<open>
  Claim C1 (the code departs from it). When the name is not cached and the driver answers
  a negative location, \<^verbatim>\<open>GetUniformLocation\<close> stores the entry \<open>name \<mapsto> 0\<close>, returns
  0 and not the driver's negative answer, and the next lookup of the name is answered from
  the cache without any call to the driver.
\<close>

theorem GetUniformLocation_caches_failed_lookup:
  assumes "m_UniformLocations sh name = None" and "uniform_location gl (m_Handle sh) name < 0"
  shows "GetUniformLocation name (sh, gl) =
           (0, sh\<lparr>m_UniformLocations := (m_UniformLocations sh)(name \<mapsto> 0)\<rparr>,
            called (GetUniformLocation' (m_Handle sh) name) gl)
         \<and> GetUniformLocation name
               (sh\<lparr>m_UniformLocations := (m_UniformLocations sh)(name \<mapsto> 0)\<rparr>, gl') =
              (0, sh\<lparr>m_UniformLocations := (m_UniformLocations sh)(name \<mapsto> 0)\<rparr>, gl')"
  using assms
  by (simp add: GetUniformLocation_def glGetUniformLocation_def subscript_def)


theorem GetUniformLocation_caches_failed_lookup_witness:
  "m_UniformLocations example_shader ''u_Missing'' = None
   \<and> uniform_location (example_driver True []) (m_Handle example_shader) ''u_Missing'' = - 1
   \<and> fst (GetUniformLocation ''u_Missing'' (example_shader, example_driver True [])) = 0
   \<and> m_UniformLocations
         (fst (snd (GetUniformLocation ''u_Missing'' (example_shader, example_driver True []))))
         ''u_Missing'' = Some 0
   \<and> GetUniformLocation ''u_Missing''
         (example_shader\<lparr>m_UniformLocations := (m_UniformLocations example_shader)(''u_Missing'' \<mapsto> 0)\<rparr>,
          bound_driver)
       = (0, example_shader\<lparr>m_UniformLocations := (m_UniformLocations example_shader)(''u_Missing'' \<mapsto> 0)\<rparr>,
          bound_driver)"
  using GetUniformLocation_caches_failed_lookup
    [of example_shader "''u_Missing''" "example_driver True []" bound_driver]
  by (simp add: example_shader_def example_driver_def test_driver_def)

text \<open>
  Claim C2 (the code departs from it). For every overload, a \<^verbatim>\<open>SetUniform\<close> whose name
  is not cached and has a negative location at the driver still issues its upload, to
  location 0, and the value of location 0 of the current program becomes the uploaded one.
\<close>

theorem SetUniform_unresolved_name_uploads:
  assumes "m_UniformLocations sh name = None" and "uniform_location gl (m_Handle sh) name < 0"
    and "current_program gl \<noteq> 0"
  shows "calls (snd (SetUniform name value (sh, gl)))
           = calls gl @ [GetUniformLocation' (m_Handle sh) name, Uniform 0 (upload value)]
         \<and> uniform_values (snd (SetUniform name value (sh, gl))) (current_program gl, 0)
           = Some (upload value)"
  using assms
  by (simp add: SetUniform_def GetUniformLocation_def glGetUniformLocation_def subscript_def
      glUniform_def called_def)


theorem SetUniform_unresolved_name_uploads_witness:
  "m_UniformLocations (example_shader\<lparr>m_IsLinked := True\<rparr>) ''u_Missing'' = None
   \<and> uniform_location bound_driver 1 ''u_Missing'' = - 1
   \<and> uniform_location bound_driver 1 ''u_ViewProjectionMatrix'' = 0
   \<and> current_program bound_driver = 1
   \<and> uniform_values
         (snd (SetUniform ''u_Missing'' (ArgMat4 identity)
                 (example_shader\<lparr>m_IsLinked := True\<rparr>, bound_driver)))
         (1, 0) = Some (UniformMatrix4fv identity)"
  using SetUniform_unresolved_name_uploads
    [of "example_shader\<lparr>m_IsLinked := True\<rparr>" "''u_Missing''" bound_driver "ArgMat4 identity"]
  by (simp add: example_shader_def bound_driver_def test_driver_def)

text \<open>
  Claim C3, as amended. When the path names nothing or a regular file that cannot be
  opened, and more generally when the text read holds no marker, the constructor behind
  \<^verbatim>\<open>Shader::Create\<close> returns normally: it makes no call to the driver and the object has
  no program handle and is not linked; nothing but the log line of \<^verbatim>\<open>ReadFile\<close> records
  the failure. Only when a file-system query throws does the constructor fail, with that
  error and again without a call to the driver.
\<close>

theorem Create_without_markers_returns:
  "(unreadable fs filepath \<longrightarrow>
      Create order fs filepath gl = (Inr fresh_shader, gl, snd (ReadFile fs filepath))
      \<and> snd (ReadFile fs filepath) \<noteq> [])
   \<and> (fst (ReadFile fs filepath) = Inr src \<and> (\<forall>p. \<not> marker_at src p) \<longrightarrow>
      Create order fs filepath gl = (Inr fresh_shader, gl, snd (ReadFile fs filepath)))
   \<and> (query_fails fs filepath \<longrightarrow>
      Create order fs filepath gl = (Inl filesystem_error, gl, snd (ReadFile fs filepath)))"
proof (intro conjI impI)
  assume u: "unreadable fs filepath"
  from unreadable_no_marker [OF u] obtain src' where
    "fst (ReadFile fs filepath) = Inr src'" "\<forall>p. \<not> marker_at src' p" by blast
  then show "Create order fs filepath gl = (Inr fresh_shader, gl, snd (ReadFile fs filepath))"
    by (rule Create_no_marker)
  from u show "snd (ReadFile fs filepath) \<noteq> []"
    by (auto simp: unreadable_def ReadFile_def split: option.splits Entry.splits)
next
  assume "fst (ReadFile fs filepath) = Inr src \<and> (\<forall>p. \<not> marker_at src p)"
  then show "Create order fs filepath gl = (Inr fresh_shader, gl, snd (ReadFile fs filepath))"
    using Create_no_marker by blast
next
  assume "query_fails fs filepath"
  then show "Create order fs filepath gl = (Inl filesystem_error, gl, snd (ReadFile fs filepath))"
    by (auto simp: query_fails_def ReadFile_def Create_def split: option.splits Entry.splits)
qed

theorem Create_without_markers_returns_witness:
  "unreadable example_files ''missing.glsl''
   \<and> Create declaration_order example_files ''missing.glsl'' (test_driver True [])
       = (Inr fresh_shader, test_driver True [],
          [''Can't read the file by provided path: missing.glsl''])
   \<and> fst (ReadFile example_files ''plain.glsl'') = Inr ''void main() {}''
   \<and> (\<forall>p. \<not> marker_at ''void main() {}'' p)
   \<and> Create declaration_order example_files ''plain.glsl'' (test_driver True [])
       = (Inr fresh_shader, test_driver True [], [])
   \<and> query_fails example_files ''shaders''
   \<and> Create declaration_order example_files ''shaders'' (test_driver True [])
       = (Inl filesystem_error, test_driver True [], [])"
proof -
  have 1: "unreadable example_files ''missing.glsl''"
    by (simp add: unreadable_def example_files_def)
  have 2: "fst (ReadFile example_files ''plain.glsl'') = Inr ''void main() {}''"
    "snd (ReadFile example_files ''plain.glsl'') = []"
    by (simp_all add: ReadFile_def example_files_def)
  have 3: "\<forall>p. \<not> marker_at ''void main() {}'' p"
    using str_find_None_iff [of "''void main() {}''" 0] by (simp add: str_find_def token_def)
  have 4: "query_fails example_files ''shaders''"
    "snd (ReadFile example_files ''shaders'') = []"
    by (simp_all add: query_fails_def ReadFile_def example_files_def)
  have 5: "snd (ReadFile example_files ''missing.glsl'')
           = [''Can't read the file by provided path: missing.glsl'']"
    by (simp add: ReadFile_def example_files_def)
  from Create_without_markers_returns
         [of example_files "''missing.glsl''" declaration_order "test_driver True []"] 1 5
  have a: "Create declaration_order example_files ''missing.glsl'' (test_driver True [])
       = (Inr fresh_shader, test_driver True [],
          [''Can't read the file by provided path: missing.glsl''])"
    by simp
  from Create_without_markers_returns
         [of example_files "''plain.glsl''" declaration_order "test_driver True []"
             "''void main() {}''"] 2 3
  have b: "Create declaration_order example_files ''plain.glsl'' (test_driver True [])
       = (Inr fresh_shader, test_driver True [], [])"
    by simp
  from Create_without_markers_returns
         [of example_files "''shaders''" declaration_order "test_driver True []"] 4
  have c: "Create declaration_order example_files ''shaders'' (test_driver True [])
       = (Inl filesystem_error, test_driver True [], [])"
    by simp
  from 1 2(1) 3 4(1) a b c show ?thesis by (simp only: simp_thms)
qed

text \<open>
  Claim C3 as the spec states it fails: for a path that names no file the constructor
  returns an object, it does not throw.
\<close>

theorem Create_missing_file_returns_object:
  "fst (Create constant_order Map.empty ''missing.glsl'' (test_driver True [])) = Inr fresh_shader"
  by (simp add: Create_def ReadFile_def ParseShader_def str_find_def token_def
      Compile_sources_def entries_def List.map_filter_def constant_order_def fresh_shader_def)

text \<open>
  Claim C4 (the code departs from it). When the link fails and the driver's log for the
  program is empty, \<^verbatim>\<open>Link\<close> returns normally: it throws nothing, deletes neither the
  program nor a stage object, and its only calls are the link request and four queries.
\<close>

theorem Link_failure_with_empty_log_returns:
  assumes "program_objects gl (m_Handle sh) = Some po" and "\<not> links gl (m_Handle sh)"
    and "link_log gl (m_Handle sh) = []"
  shows "\<exists>gl'. Link (sh, gl) = (Inr (), sh, gl')
           \<and> program_objects gl' (m_Handle sh) \<noteq> None
           \<and> shader_objects gl' = shader_objects gl
           \<and> attachments gl' = attachments gl
           \<and> calls gl' = calls gl @
                [LinkProgram (m_Handle sh), GetProgramiv_ATTACHED_SHADERS (m_Handle sh),
                 GetAttachedShaders (m_Handle sh) (length (attached gl (m_Handle sh))),
                 GetProgramiv_LINK_STATUS (m_Handle sh),
                 GetProgramiv_INFO_LOG_LENGTH (m_Handle sh)]"
  using assms
  by (simp add: Link_def glLinkProgram_def glGetProgramiv_ATTACHED_SHADERS_def
      glGetAttachedShaders_def glGetProgramiv_LINK_STATUS_def glGetProgramiv_INFO_LOG_LENGTH_def
      info_log_length_def called_def attached_def Let_def)


theorem Link_failure_with_empty_log_returns_witness:
  "program_objects (example_driver False []) (m_Handle example_shader)
     = Some \<lparr>po_linked = False, po_log = []\<rparr>
   \<and> \<not> links (example_driver False []) (m_Handle example_shader)
   \<and> link_log (example_driver False []) (m_Handle example_shader) = []
   \<and> (\<exists>gl'. Link (example_shader, example_driver False []) = (Inr (), example_shader, gl')
         \<and> program_objects gl' 1 \<noteq> None
         \<and> shader_objects gl' = shader_objects (example_driver False [])
         \<and> attachments gl' = [(1, 2), (1, 3)])"
proof -
  have h: "program_objects (example_driver False []) (m_Handle example_shader)
             = Some \<lparr>po_linked = False, po_log = []\<rparr>"
    "\<not> links (example_driver False []) (m_Handle example_shader)"
    "link_log (example_driver False []) (m_Handle example_shader) = []"
    by (simp_all add: example_shader_def example_driver_def test_driver_def)
  from Link_failure_with_empty_log_returns [OF h] obtain gl' where
    "Link (example_shader, example_driver False []) = (Inr (), example_shader, gl')"
    "program_objects gl' (m_Handle example_shader) \<noteq> None"
    "shader_objects gl' = shader_objects (example_driver False [])"
    "attachments gl' = attachments (example_driver False [])"
    by blast
  moreover have "attachments (example_driver False []) = [(1, 2), (1, 3)]"
    "m_Handle example_shader = 1"
    by (simp_all add: example_shader_def example_driver_def)
  ultimately show ?thesis using h by auto
qed

text \<open>
  A stage that fails to compile is deleted, and nothing else is: a stage object attached
  before it stays alive and attached, and the program object stays.
\<close>

lemma Compile_failure_keeps_earlier_stages:
  assumes "m_Handle sh \<noteq> 0" and "shader_objects gl s = Some so"
    and "(m_Handle sh, s) \<in> set (attachments gl)"
    and "grants_shader gl type" and "next_name gl \<noteq> 0" and "next_name gl \<noteq> s"
    and "next_name gl \<notin> snd ` set (attachments gl)"
    and "\<not> compiles gl type source"
  shows "\<exists>msg gl'. Compile type source (sh, gl) = (Inl (runtime_error msg), sh, gl')
           \<and> shader_objects gl' s = Some so
           \<and> (m_Handle sh, s) \<in> set (attachments gl')
           \<and> program_objects gl' = program_objects gl
           \<and> DeleteShader s \<notin> set (drop (length (calls gl)) (calls gl'))
           \<and> shader_objects gl' (next_name gl) = None"
  using assms
  by (simp add: Compile_def glCreateShader_def glShaderSource_def glCompileShader_def
      glGetShaderiv_COMPILE_STATUS_def glGetShaderiv_INFO_LOG_LENGTH_def glGetShaderInfoLog_def
      glDeleteShader_def called_def shader_log_def info_log_length_def write_log_def Let_def
      split: prod.splits)



text \<open>
  Claim C5 (the code departs from it). \<^verbatim>\<open>Shader::Create("broken.glsl")\<close>, whose vertex
  stage compiles and whose geometry stage does not, throws with the driver's log in the
  message, under either order of the enumerators; the vertex stage object (2) allocated
  for the program is still alive and attached when the exception leaves, and so is the
  program object (1). Only the failing stage object (3) was deleted.
\<close>

theorem Create_compile_failure_keeps_earlier_stage:
  "Create declaration_order example_files ''broken.glsl'' (test_driver True [])
     = (Inl (runtime_error (''syntax error'' @ [NUL] @ '': shader compilation failed!'')),
        after_failure, [])
   \<and> Create constant_order example_files ''broken.glsl'' (test_driver True [])
     = (Inl (runtime_error (''syntax error'' @ [NUL] @ '': shader compilation failed!'')),
        after_failure, [])
   \<and> shader_objects after_failure 2
     = Some \<lparr>so_type = Vertex, so_source = ''V'' @ [LF], so_compiled = True\<rparr>
   \<and> attachments after_failure = [(1, 2)]
   \<and> program_objects after_failure 1 = Some \<lparr>po_linked = False, po_log = []\<rparr>
   \<and> shader_objects after_failure 3 = None
   \<and> filter (\<lambda>c. c \<in> {DeleteShader 2, DeleteShader 3, DeleteProgram 1}) (calls after_failure)
     = [DeleteShader 3]"
  by (simp add: Create_broken)
     (simp add: after_failure_def after_vertex_def test_driver_def)

text \<open>
  Claim C6. For a program that is not yet linked and whose link succeeds, the first bind
  sets the linked flag and sends exactly one link request; a second bind sends only the
  activation of the program, no link request; and after any sequence of operations on the
  object the flag is still set.
\<close>

theorem Bind_links_exactly_once:
  assumes "\<not> m_IsLinked sh" and "program_objects gl (m_Handle sh) \<noteq> None"
    and "links gl (m_Handle sh)"
  shows "\<exists>sh1 gl1 gl2.
           Bind (sh, gl) = (Inr (), sh1, gl1) \<and> m_IsLinked sh1
           \<and> link_requests gl1 = link_requests gl + 1
           \<and> Bind (sh1, gl1) = (Inr (), sh1, gl2)
           \<and> calls gl2 = calls gl1 @ [UseProgram (m_Handle sh1)]
           \<and> link_requests gl2 = link_requests gl1
           \<and> (\<forall>ops. m_IsLinked (fst (lifetime ops (sh1, gl1))))"
proof -
  from assms(2) obtain po where po: "program_objects gl (m_Handle sh) = Some po" by auto
  from Bind_first [OF assms(1) po assms(3)] obtain gl1 where
    1: "Bind (sh, gl) = (Inr (), sh\<lparr>m_IsLinked := True\<rparr>, gl1)"
    and 2: "link_requests gl1 = link_requests gl + 1" by blast
  let ?sh1 = "sh\<lparr>m_IsLinked := True\<rparr>"
  have 3: "Bind (?sh1, gl1) = (Inr (), ?sh1, glUseProgram (m_Handle ?sh1) gl1)"
    by (rule Bind_again) simp
  have 4: "calls (glUseProgram (m_Handle ?sh1) gl1) = calls gl1 @ [UseProgram (m_Handle ?sh1)]"
    by (rule calls_glUseProgram)
  then have 5: "link_requests (glUseProgram (m_Handle ?sh1) gl1) = link_requests gl1"
    by (simp add: link_requests_def)
  have 6: "\<forall>ops. m_IsLinked (fst (lifetime ops (?sh1, gl1)))"
    by (simp add: lifetime_keeps_linked)
  have 7: "m_IsLinked ?sh1" by simp
  show ?thesis
    apply (rule exI [of _ ?sh1])
    apply (rule exI [of _ gl1])
    apply (rule exI [of _ "glUseProgram (m_Handle ?sh1) gl1"])
    apply (intro conjI)
    apply (rule 1)
    apply (rule 7)
    apply (rule 2)
    apply (rule 3)
    apply (rule 4)
    apply (rule 5)
    apply (rule 6)
    done
qed


theorem Bind_links_exactly_once_witness:
  "\<not> m_IsLinked example_shader
   \<and> program_objects (example_driver True []) (m_Handle example_shader) \<noteq> None
   \<and> links (example_driver True []) (m_Handle example_shader)
   \<and> (\<exists>sh1 gl1 gl2.
         Bind (example_shader, example_driver True []) = (Inr (), sh1, gl1) \<and> m_IsLinked sh1
         \<and> link_requests gl1 = link_requests (example_driver True []) + 1
         \<and> Bind (sh1, gl1) = (Inr (), sh1, gl2)
         \<and> calls gl2 = calls gl1 @ [UseProgram (m_Handle sh1)]
         \<and> link_requests gl2 = link_requests gl1
         \<and> (\<forall>ops. m_IsLinked (fst (lifetime ops (sh1, gl1)))))"
  using Bind_links_exactly_once [of example_shader "example_driver True []"]
  by (simp add: example_shader_def example_driver_def test_driver_def)

section \<open>Properties of the renderer\<close>




end
